theory Spec2Isabelle
  imports Complex_Main "HOL-Library.Char_ord" "HOL-Library.List_Lexorder"
    "HOL-Library.Product_Lexorder"
begin

section \<open>The pharmacy claims pipeline of \<open>src/main.py\<close>\<close>

text \<open>
  The program loads three collections of records (pharmacies, claims, reverts) into data
  frames and computes three reports from them. A data frame is modelled as its list of
  column labels together with its list of rows; a row is a record with one field per
  column of the schema, and a missing value (NaN or None) is \<open>None\<close>, or \<open>Null\<close> for a
  raw price or quantity. Identifiers are strings. Numbers are rationals: the program
  computes with binary floating point, which the model idealises, so the theorems below
  speak of exact sums, quotients and roundings. Asking a frame for a column it does not
  have raises KeyError; every such access of the source is a branch of the model.
\<close>

subsection \<open>Data model\<close>

datatype cell = Null | Str string | Num rat

record claim =
  cid :: "string option"
  npi :: "string option"
  ndc :: "string option"
  price :: cell
  quantity :: cell

record pharmacy =
  pnpi :: "string option"
  chain :: "string option"

record revert =
  claim_id :: "string option"

record 'r frame =
  columns :: "string list"
  rows :: "'r list"

datatype error = KeyError string

text \<open>The working copy of the claims inside Goal 2 and Goal 3, after the numeric coercion
  of lines 46-47 (79-80), and after the derived column of line 50 (83).\<close>

record numeric_claim =
  n_id :: "string option"
  n_npi :: "string option"
  n_ndc :: "string option"
  n_price :: "rat option"
  n_quantity :: "rat option"

record priced_claim =
  v_id :: "string option"
  v_npi :: "string option"
  v_ndc :: "string option"
  v_price :: "rat option"
  v_quantity :: "rat option"
  unit_price :: "rat option"

record fill_metric =
  fm_npi :: string
  fm_ndc :: string
  fills :: nat
  reverted :: nat
  avg_price :: rat
  total_price :: rat

record chain_entry =
  ce_name :: string
  ce_avg_price :: "rat option"

record chain_recommendation =
  cr_ndc :: string
  cr_chain :: "chain_entry list"

record quantity_profile =
  qp_ndc :: string
  most_prescribed_quantity :: "rat list"

subsection \<open>The data-frame operations the program uses\<close>

text \<open>\<open>pd.to_numeric(..., errors='coerce')\<close>: a number stays, a missing value stays missing,
  a string is parsed, and what does not parse becomes missing. The parser of strings
  belongs to the library and is a parameter of the model.\<close>

fun to_numeric :: "(string \<Rightarrow> rat option) \<Rightarrow> cell \<Rightarrow> rat option" where
  "to_numeric parse Null = None"
| "to_numeric parse (Num x) = Some x"
| "to_numeric parse (Str s) = parse s"

text \<open>A parser for the examples: an unsigned string of decimal digits.\<close>

definition digit_value :: "char \<Rightarrow> nat option" where
  "digit_value c =
     (let n = of_char c :: nat in if 48 \<le> n \<and> n \<le> 57 then Some (n - 48) else None)"

fun parse_digits_acc :: "nat \<Rightarrow> string \<Rightarrow> nat option" where
  "parse_digits_acc acc [] = Some acc"
| "parse_digits_acc acc (c # cs) =
     (case digit_value c of None \<Rightarrow> None | Some d \<Rightarrow> parse_digits_acc (10 * acc + d) cs)"

definition parse_digits :: "string \<Rightarrow> rat option" where
  "parse_digits s = (if s = [] then None else map_option of_nat (parse_digits_acc 0 s))"

text \<open>Element-wise division of two numeric columns. A missing operand gives a missing
  result; a zero divisor gives no finite number, which is \<open>None\<close> here as well.\<close>

definition fdiv :: "rat option \<Rightarrow> rat option \<Rightarrow> rat option" where
  "fdiv a b =
     (case a of None \<Rightarrow> None
      | Some x \<Rightarrow> (case b of None \<Rightarrow> None
                   | Some y \<Rightarrow> if y = 0 then None else Some (x / y)))"

definition gt_zero :: "rat option \<Rightarrow> bool" where
  "gt_zero a = (case a of None \<Rightarrow> False | Some q \<Rightarrow> 0 < q)"

definition key2 :: "'a option \<Rightarrow> 'b option \<Rightarrow> ('a \<times> 'b) option" where
  "key2 a b =
     (case a of None \<Rightarrow> None
      | Some x \<Rightarrow> (case b of None \<Rightarrow> None | Some y \<Rightarrow> Some (x, y)))"

text \<open>\<open>groupby\<close>: the groups come in ascending order of their keys, rows with a missing key
  belong to no group, and each group keeps its rows in the order of the frame.\<close>

definition groupby :: "('r \<Rightarrow> 'k::linorder option) \<Rightarrow> 'r list \<Rightarrow> ('k \<times> 'r list) list" where
  "groupby key rs =
     map (\<lambda>k. (k, filter (\<lambda>r. key r = Some k) rs)) (sort (remdups (List.map_filter key rs)))"

text \<open>\<open>groupby(...).head(n)\<close>: the rows of the frame, in the order of the frame, that are
  among the first \<open>n\<close> of their group.\<close>

fun group_head_acc :: "nat \<Rightarrow> ('r \<Rightarrow> 'k) \<Rightarrow> 'k list \<Rightarrow> 'r list \<Rightarrow> 'r list" where
  "group_head_acc n key seen [] = []"
| "group_head_acc n key seen (r # rs) =
     (if count_list seen (key r) < n
      then r # group_head_acc n key (key r # seen) rs
      else group_head_acc n key (key r # seen) rs)"

definition group_head :: "nat \<Rightarrow> ('r \<Rightarrow> 'k) \<Rightarrow> 'r list \<Rightarrow> 'r list" where
  "group_head n key rs = group_head_acc n key [] rs"

definition count_notna :: "'a option list \<Rightarrow> nat" where
  "count_notna xs = length (filter (\<lambda>x. x \<noteq> None) xs)"

definition sum_skipna :: "rat option list \<Rightarrow> rat" where
  "sum_skipna xs = sum_list (List.map_filter (\<lambda>x. x) xs)"

definition mean_skipna :: "rat option list \<Rightarrow> rat option" where
  "mean_skipna xs =
     (let vs = List.map_filter (\<lambda>x. x) xs
      in if vs = [] then None else Some (sum_list vs / of_nat (length vs)))"

text \<open>\<open>pd.merge(left, right, on=key, how='left')\<close>: every left row once per matching right
  row, or once with missing right values when none matches.\<close>

definition merge_left :: "('k \<times> 'a) list \<Rightarrow> ('k \<times> 'b) list \<Rightarrow> ('k \<times> 'a \<times> 'b option) list" where
  "merge_left ls rs =
     concat (map (\<lambda>(k, a).
       (case filter (\<lambda>(k', b). k' = k) rs of
          [] \<Rightarrow> [(k, a, None)]
        | ms \<Rightarrow> map (\<lambda>(k', b). (k, a, Some b)) ms)) ls)"

text \<open>\<open>round(2)\<close>: to the nearest multiple of \<open>1/100\<close>, a tie going to the even one.\<close>

definition round_half_even :: "rat \<Rightarrow> int" where
  "round_half_even x =
     (let f = \<lfloor>x\<rfloor>; d = x - of_int f
      in if d < 1 / 2 then f else if 1 / 2 < d then f + 1 else if even f then f else f + 1)"

definition round2 :: "rat \<Rightarrow> rat" where
  "round2 x = of_int (round_half_even (x * 100)) / 100"

text \<open>\<open>sort_values\<close> puts missing values last.\<close>

definition nan_last :: "rat option \<Rightarrow> nat \<times> rat" where
  "nan_last a = (case a of None \<Rightarrow> (1, 0) | Some x \<Rightarrow> (0, x))"

definition df_empty :: "'r frame \<Rightarrow> bool" where
  "df_empty df = (rows df = [] \<or> columns df = [])"

subsection \<open>Record Loader\<close>

text \<open>A directory path that is no directory is \<open>None\<close>; a directory is the list of its JSON
  and CSV files; a file that cannot be read or parsed is \<open>None\<close>, any other is the frame of
  its records.\<close>

definition pd_concat :: "'r frame list \<Rightarrow> 'r frame" where
  "pd_concat dfs = \<lparr>columns = remdups (concat (map columns dfs)), rows = concat (map rows dfs)\<rparr>"

definition load_data_from_dirs :: "'r frame option list option list \<Rightarrow> 'r frame" where
  "load_data_from_dirs dir_paths =
     (let all_dfs = concat (map (\<lambda>d. case d of None \<Rightarrow> []
                                      | Some files \<Rightarrow> List.map_filter (\<lambda>f. f) files) dir_paths)
      in if all_dfs = [] then \<lparr>columns = [], rows = []\<rparr> else pd_concat all_dfs)"

subsection \<open>Fill Metrics Aggregator (Goal 2)\<close>

text \<open>Lines 44-50: the valid claims of Goal 2. The function works on a copy of the claims
  frame (\<open>.copy()\<close>), so the caller's frame stays as it is.\<close>

definition goal_2_valid_claims ::
  "(string \<Rightarrow> rat option) \<Rightarrow> claim list \<Rightarrow> revert list \<Rightarrow> priced_claim list" where
  "goal_2_valid_claims parse claims reverts =
     (let valid_claims_df = filter (\<lambda>c. cid c \<notin> set (map claim_id reverts)) claims;
          coerced = map (\<lambda>c. \<lparr>n_id = cid c, n_npi = npi c, n_ndc = ndc c,
                             n_price = to_numeric parse (price c),
                             n_quantity = to_numeric parse (quantity c)\<rparr>) valid_claims_df;
          dropped = filter (\<lambda>n. n_price n \<noteq> None \<and> n_quantity n \<noteq> None) coerced;
          positive = filter (\<lambda>n. gt_zero (n_quantity n)) dropped
      in map (\<lambda>n. \<lparr>v_id = n_id n, v_npi = n_npi n, v_ndc = n_ndc n, v_price = n_price n,
                   v_quantity = n_quantity n,
                   unit_price = fdiv (n_price n) (n_quantity n)\<rparr>) positive)"

text \<open>Lines 52-55, 57, 59-60: the three grouped tables.\<close>

definition metrics_df ::
  "priced_claim list \<Rightarrow> ((string \<times> string) \<times> rat option \<times> rat) list" where
  "metrics_df valid =
     map (\<lambda>(k, g). (k, mean_skipna (map unit_price g), sum_skipna (map v_price g)))
       (groupby (\<lambda>v. key2 (v_npi v) (v_ndc v)) valid)"

definition fills_count :: "claim list \<Rightarrow> ((string \<times> string) \<times> nat) list" where
  "fills_count claims =
     map (\<lambda>(k, g). (k, count_notna (map cid g))) (groupby (\<lambda>c. key2 (npi c) (ndc c)) claims)"

definition reverts_count :: "claim list \<Rightarrow> revert list \<Rightarrow> ((string \<times> string) \<times> nat) list" where
  "reverts_count claims reverts =
     (let reverted_claims_info = filter (\<lambda>c. cid c \<in> set (map claim_id reverts)) claims
      in map (\<lambda>(k, g). (k, count_notna (map cid g)))
           (groupby (\<lambda>c. key2 (npi c) (ndc c)) reverted_claims_info))"

text \<open>Lines 62-69: the two left joins, the defaults for what is missing, the rounding.\<close>

definition fill_metric_row ::
  "(string \<times> string) \<times> (nat \<times> nat option) \<times> (rat option \<times> rat) option \<Rightarrow> fill_metric" where
  "fill_metric_row r =
     (case r of ((n, d), (f, rv), m) \<Rightarrow>
        \<lparr>fm_npi = n, fm_ndc = d, fills = f,
         reverted = (case rv of None \<Rightarrow> 0 | Some x \<Rightarrow> x),
         avg_price = round2 (case m of None \<Rightarrow> 0
                             | Some (a, t) \<Rightarrow> (case a of None \<Rightarrow> 0 | Some x \<Rightarrow> x)),
         total_price = round2 (case m of None \<Rightarrow> 0 | Some (a, t) \<Rightarrow> t)\<rparr>)"

definition goal_2_result ::
  "(string \<Rightarrow> rat option) \<Rightarrow> claim list \<Rightarrow> revert list \<Rightarrow> fill_metric list" where
  "goal_2_result parse claims reverts =
     map fill_metric_row
       (merge_left (merge_left (fills_count claims) (reverts_count claims reverts))
          (metrics_df (goal_2_valid_claims parse claims reverts)))"

definition calculate_goal_2_metrics ::
  "(string \<Rightarrow> rat option) \<Rightarrow> claim frame \<Rightarrow> revert frame \<Rightarrow> error + fill_metric list" where
  "calculate_goal_2_metrics parse claims_df reverts_df =
     (if ''id'' \<notin> set (columns claims_df) then Inl (KeyError ''id'')
      else if ''claim_id'' \<notin> set (columns reverts_df) then Inl (KeyError ''claim_id'')
      else if ''price'' \<notin> set (columns claims_df) then Inl (KeyError ''price'')
      else if ''quantity'' \<notin> set (columns claims_df) then Inl (KeyError ''quantity'')
      else if ''npi'' \<notin> set (columns claims_df) then Inl (KeyError ''npi'')
      else if ''ndc'' \<notin> set (columns claims_df) then Inl (KeyError ''ndc'')
      else Inr (goal_2_result parse (rows claims_df) (rows reverts_df)))"

subsection \<open>Chain Recommendation Engine (Goal 3)\<close>

text \<open>Lines 78-83: the valid claims of Goal 3, again on a copy.\<close>

definition goal_3_valid_claims ::
  "(string \<Rightarrow> rat option) \<Rightarrow> claim list \<Rightarrow> revert list \<Rightarrow> priced_claim list" where
  "goal_3_valid_claims parse claims reverts =
     (let valid_claims_df = filter (\<lambda>c. cid c \<notin> set (map claim_id reverts)) claims;
          coerced = map (\<lambda>c. \<lparr>n_id = cid c, n_npi = npi c, n_ndc = ndc c,
                             n_price = to_numeric parse (price c),
                             n_quantity = to_numeric parse (quantity c)\<rparr>) valid_claims_df;
          dropped = filter (\<lambda>n. n_price n \<noteq> None \<and> n_quantity n \<noteq> None) coerced;
          positive = filter (\<lambda>n. gt_zero (n_quantity n)) dropped
      in map (\<lambda>n. \<lparr>v_id = n_id n, v_npi = n_npi n, v_ndc = n_ndc n, v_price = n_price n,
                   v_quantity = n_quantity n,
                   unit_price = fdiv (n_price n) (n_quantity n)\<rparr>) positive)"

text \<open>Line 85: the inner join of the valid claims with the pharmacies on \<open>npi\<close>.\<close>

definition chain_prices_df ::
  "priced_claim list \<Rightarrow> pharmacy list \<Rightarrow> (priced_claim \<times> pharmacy) list" where
  "chain_prices_df valid pharmacies =
     concat (map (\<lambda>v. map (\<lambda>ph. (v, ph)) (filter (\<lambda>ph. pnpi ph = v_npi v) pharmacies)) valid)"

text \<open>Lines 87-88: the rounded mean unit price of every (ndc, chain) group.\<close>

definition avg_chain_price_df ::
  "(priced_claim \<times> pharmacy) list \<Rightarrow> (string \<times> string \<times> rat option) list" where
  "avg_chain_price_df joined =
     map (\<lambda>((d, ch), g). (d, ch, map_option round2 (mean_skipna (map (\<lambda>(v, ph). unit_price v) g))))
       (groupby (\<lambda>(v, ph). key2 (v_ndc v) (chain ph)) joined)"

text \<open>Line 90: sort by the average, then keep the first two rows of every drug. Rows
  with equal averages are kept in the order of the frame; the library promises no order
  for them, and no property below depends on one.\<close>

definition top_2_chains ::
  "(string \<times> string \<times> rat option) list \<Rightarrow> (string \<times> string \<times> rat option) list" where
  "top_2_chains avg = group_head 2 fst (sort_key (\<lambda>(d, ch, a). nan_last a) avg)"

text \<open>Lines 92-95: one record per drug, its chains in the order of the sorted frame. When
  no valid claim is joined to a pharmacy the frame is empty and the model gives no
  record; the properties of the records do not depend on what the library does with an
  empty frame at line 95.\<close>

definition format_chains :: "(string \<times> string \<times> rat option) list \<Rightarrow> chain_entry list" where
  "format_chains grp = map (\<lambda>(d, ch, a). \<lparr>ce_name = ch, ce_avg_price = a\<rparr>) grp"

definition goal_3_result ::
  "(string \<Rightarrow> rat option) \<Rightarrow> claim list \<Rightarrow> pharmacy list \<Rightarrow> revert list
     \<Rightarrow> chain_recommendation list" where
  "goal_3_result parse claims pharmacies reverts =
     map (\<lambda>(d, g). \<lparr>cr_ndc = d, cr_chain = format_chains g\<rparr>)
       (groupby (\<lambda>r. Some (fst r))
          (top_2_chains (avg_chain_price_df
             (chain_prices_df (goal_3_valid_claims parse claims reverts) pharmacies))))"

definition calculate_goal_3_recommendations ::
  "(string \<Rightarrow> rat option) \<Rightarrow> claim frame \<Rightarrow> pharmacy frame \<Rightarrow> revert frame
     \<Rightarrow> error + chain_recommendation list" where
  "calculate_goal_3_recommendations parse claims_df pharmacy_df reverts_df =
     (if ''id'' \<notin> set (columns claims_df) then Inl (KeyError ''id'')
      else if ''claim_id'' \<notin> set (columns reverts_df) then Inl (KeyError ''claim_id'')
      else if ''price'' \<notin> set (columns claims_df) then Inl (KeyError ''price'')
      else if ''quantity'' \<notin> set (columns claims_df) then Inl (KeyError ''quantity'')
      else if ''npi'' \<notin> set (columns claims_df) then Inl (KeyError ''npi'')
      else if ''npi'' \<notin> set (columns pharmacy_df) then Inl (KeyError ''npi'')
      else if ''ndc'' \<notin> set (columns claims_df) then Inl (KeyError ''ndc'')
      else if ''chain'' \<notin> set (columns pharmacy_df) then Inl (KeyError ''chain'')
      else Inr (goal_3_result parse (rows claims_df) (rows pharmacy_df) (rows reverts_df)))"

subsection \<open>Quantity Frequency Analyzer (Goal 4)\<close>

text \<open>Lines 104-105 work on the frame they are given, not on a copy: the quantity column
  is replaced by its numeric coercion and the rows without a quantity are dropped from
  the caller's frame. The function therefore returns the frame as it leaves it, next to
  its result or its error.\<close>

definition coerce_quantity :: "(string \<Rightarrow> rat option) \<Rightarrow> claim \<Rightarrow> claim" where
  "coerce_quantity parse c =
     c\<lparr>quantity := (case to_numeric parse (quantity c) of None \<Rightarrow> Null | Some q \<Rightarrow> Num q)\<rparr>"

definition goal_4_claims :: "(string \<Rightarrow> rat option) \<Rightarrow> claim list \<Rightarrow> claim list" where
  "goal_4_claims parse claims = filter (\<lambda>c. quantity c \<noteq> Null) (map (coerce_quantity parse) claims)"

fun cell_number :: "cell \<Rightarrow> rat option" where
  "cell_number (Num q) = Some q"
| "cell_number c = None"

text \<open>Line 107: the size of every (ndc, quantity) group.\<close>

definition quantity_counts :: "claim list \<Rightarrow> (string \<times> rat \<times> nat) list" where
  "quantity_counts claims =
     map (\<lambda>((d, q), g). (d, q, length g))
       (groupby (\<lambda>c. key2 (ndc c) (cell_number (quantity c))) claims)"

text \<open>Line 109: sort by descending count, then keep the first five rows of every drug.\<close>

definition top_5_quantities :: "(string \<times> rat \<times> nat) list \<Rightarrow> (string \<times> rat \<times> nat) list" where
  "top_5_quantities counts = group_head 5 fst (sort_key (\<lambda>(d, q, n). - int n) counts)"

definition goal_4_result :: "claim list \<Rightarrow> quantity_profile list" where
  "goal_4_result coerced_claims =
     map (\<lambda>(d, g). \<lparr>qp_ndc = d, most_prescribed_quantity = map (\<lambda>(d', q, n). q) g\<rparr>)
       (groupby (\<lambda>r. Some (fst r)) (top_5_quantities (quantity_counts coerced_claims)))"

definition calculate_goal_4_common_quantities ::
  "(string \<Rightarrow> rat option) \<Rightarrow> claim frame \<Rightarrow> claim frame \<times> (error + quantity_profile list)" where
  "calculate_goal_4_common_quantities parse claims_df =
     (if ''quantity'' \<notin> set (columns claims_df) then (claims_df, Inl (KeyError ''quantity''))
      else let claims_df' = claims_df\<lparr>rows := goal_4_claims parse (rows claims_df)\<rparr>
           in if ''ndc'' \<notin> set (columns claims_df') then (claims_df', Inl (KeyError ''ndc''))
              else (claims_df', Inr (goal_4_result (rows claims_df'))))"

subsection \<open>The pipeline\<close>

datatype output_file =
    Goal_2_metrics "fill_metric list"
  | Goal_3_recommendations "chain_recommendation list"
  | Goal_4_common_quantities "quantity_profile list"

datatype stop = No_pharmacy_data | No_claims_data | No_claims_of_known_pharmacies

datatype outcome = Finished | Returned stop | Raised error

text \<open>What a run leaves behind: the files it wrote into the output directory, in the
  order of writing, and how it ended: it finished, it returned early after one of the
  three messages of lines 130-149, or an exception ended it.\<close>

record run =
  written :: "(string \<times> output_file) list"
  outcome :: outcome

text \<open>Lines 129-173, on the three loaded frames.\<close>

definition known_pharmacy_claims :: "pharmacy frame \<Rightarrow> claim frame \<Rightarrow> claim frame" where
  "known_pharmacy_claims pharmacy_df claims_df =
     (let pharmacies = filter (\<lambda>ph. pnpi ph \<noteq> None) (rows pharmacy_df);
          claims = filter (\<lambda>c. npi c \<noteq> None \<and> cid c \<noteq> None) (rows claims_df)
      in claims_df\<lparr>rows := filter (\<lambda>c. npi c \<in> set (map pnpi pharmacies)) claims\<rparr>)"

definition run_goals ::
  "(string \<Rightarrow> rat option) \<Rightarrow> pharmacy frame \<Rightarrow> claim frame \<Rightarrow> revert frame \<Rightarrow> run" where
  "run_goals parse pharmacy_df claims_df reverts_df =
     (case calculate_goal_2_metrics parse claims_df reverts_df of
        Inl e \<Rightarrow> \<lparr>written = [], outcome = Raised e\<rparr>
      | Inr goal_2_output \<Rightarrow>
          (let w2 = [(''goal_2_metrics.json'', Goal_2_metrics goal_2_output)]
           in case calculate_goal_3_recommendations parse claims_df pharmacy_df reverts_df of
                Inl e \<Rightarrow> \<lparr>written = w2, outcome = Raised e\<rparr>
              | Inr goal_3_output \<Rightarrow>
                  (let w3 = w2 @ [(''goal_3_recommendations.json'',
                                   Goal_3_recommendations goal_3_output)]
                   in case snd (calculate_goal_4_common_quantities parse claims_df) of
                        Inl e \<Rightarrow> \<lparr>written = w3, outcome = Raised e\<rparr>
                      | Inr goal_4_output \<Rightarrow>
                          \<lparr>written = w3 @ [(''goal_4_common_quantities.json'',
                                            Goal_4_common_quantities goal_4_output)],
                           outcome = Finished\<rparr>)))"

definition process_frames ::
  "(string \<Rightarrow> rat option) \<Rightarrow> pharmacy frame \<Rightarrow> claim frame \<Rightarrow> revert frame \<Rightarrow> run" where
  "process_frames parse pharmacy_df claims_df reverts_df =
     (if df_empty pharmacy_df \<or> ''npi'' \<notin> set (columns pharmacy_df)
      then \<lparr>written = [], outcome = Returned No_pharmacy_data\<rparr>
      else if df_empty claims_df \<or> ''npi'' \<notin> set (columns claims_df)
      then \<lparr>written = [], outcome = Returned No_claims_data\<rparr>
      else if ''id'' \<notin> set (columns claims_df)
      then \<lparr>written = [], outcome = Raised (KeyError ''id'')\<rparr>
      else let pharmacy_df' = pharmacy_df\<lparr>rows := filter (\<lambda>ph. pnpi ph \<noteq> None) (rows pharmacy_df)\<rparr>;
               claims_df' = known_pharmacy_claims pharmacy_df claims_df
           in if df_empty claims_df'
              then \<lparr>written = [], outcome = Returned No_claims_of_known_pharmacies\<rparr>
              else run_goals parse pharmacy_df' claims_df' reverts_df)"

text \<open>Lines 116-127 and on: load the three frames, then process them.\<close>

definition main ::
  "(string \<Rightarrow> rat option) \<Rightarrow> pharmacy frame option list option list
     \<Rightarrow> claim frame option list option list \<Rightarrow> revert frame option list option list \<Rightarrow> run" where
  "main parse pharmacy_dirs claims_dirs reverts_dirs =
     process_frames parse (load_data_from_dirs pharmacy_dirs) (load_data_from_dirs claims_dirs)
       (load_data_from_dirs reverts_dirs)"

subsection \<open>Concrete inputs\<close>

text \<open>The scenario of the specification: two pharmacies of two chains, two claims for one
  drug, the second claim given as text the way a CSV file gives it.\<close>

definition scenario_pharmacy_df :: "pharmacy frame" where
  "scenario_pharmacy_df =
     \<lparr>columns = [''npi'', ''chain''],
      rows = [\<lparr>pnpi = Some ''1'', chain = Some ''A''\<rparr>, \<lparr>pnpi = Some ''2'', chain = Some ''B''\<rparr>]\<rparr>"

definition scenario_claims_df :: "claim frame" where
  "scenario_claims_df =
     \<lparr>columns = [''id'', ''npi'', ''ndc'', ''price'', ''quantity''],
      rows = [\<lparr>cid = Some ''c1'', npi = Some ''1'', ndc = Some ''D1'',
               price = Num 100, quantity = Num 10\<rparr>,
              \<lparr>cid = Some ''c2'', npi = Some ''2'', ndc = Some ''D1'',
               price = Str ''50'', quantity = Str ''10''\<rparr>]\<rparr>"

definition scenario_reverts_df :: "revert frame" where
  "scenario_reverts_df = \<lparr>columns = [''claim_id''], rows = [\<lparr>claim_id = Some ''c1''\<rparr>]\<rparr>"

text \<open>A reverts file that has its header and no record.\<close>

definition header_only_reverts_df :: "revert frame" where
  "header_only_reverts_df = \<lparr>columns = [''claim_id''], rows = []\<rparr>"

text \<open>Pharmacy records that carry an \<open>npi\<close> and nothing else.\<close>

definition pharmacy_without_chain_df :: "pharmacy frame" where
  "pharmacy_without_chain_df =
     \<lparr>columns = [''npi''],
      rows = [\<lparr>pnpi = Some ''1'', chain = None\<rparr>, \<lparr>pnpi = Some ''2'', chain = None\<rparr>]\<rparr>"

definition missing_chain_run :: run where
  "missing_chain_run =
     main parse_digits [Some [Some pharmacy_without_chain_df]] [Some [Some scenario_claims_df]]
       [Some [Some header_only_reverts_df]]"

text \<open>Claims of which one has a quantity that is no number.\<close>

definition mixed_quantity_claims_df :: "claim frame" where
  "mixed_quantity_claims_df =
     \<lparr>columns = [''id'', ''npi'', ''ndc'', ''price'', ''quantity''],
      rows = [\<lparr>cid = Some ''c1'', npi = Some ''1'', ndc = Some ''D1'',
               price = Num 100, quantity = Str ''10''\<rparr>,
              \<lparr>cid = Some ''c3'', npi = Some ''1'', ndc = Some ''D1'',
               price = Num 20, quantity = Str ''n/a''\<rparr>]\<rparr>"

text \<open>Seven claims for one drug: quantity 30 three times, 10 twice, 0 once, and one
  quantity that is no number.\<close>

definition quantity_claims_df :: "claim frame" where
  "quantity_claims_df =
     \<lparr>columns = [''id'', ''npi'', ''ndc'', ''price'', ''quantity''],
      rows = [\<lparr>cid = Some ''c1'', npi = Some ''1'', ndc = Some ''D1'',
               price = Num 90, quantity = Num 30\<rparr>,
              \<lparr>cid = Some ''c2'', npi = Some ''2'', ndc = Some ''D1'',
               price = Str ''50'', quantity = Str ''10''\<rparr>,
              \<lparr>cid = Some ''c3'', npi = Some ''1'', ndc = Some ''D1'',
               price = Num 60, quantity = Str ''30''\<rparr>,
              \<lparr>cid = Some ''c4'', npi = Some ''2'', ndc = Some ''D1'',
               price = Num 7, quantity = Num 0\<rparr>,
              \<lparr>cid = Some ''c5'', npi = Some ''2'', ndc = Some ''D1'',
               price = Num 8, quantity = Str ''n/a''\<rparr>,
              \<lparr>cid = Some ''c6'', npi = Some ''1'', ndc = Some ''D1'',
               price = Num 30, quantity = Num 30\<rparr>,
              \<lparr>cid = Some ''c7'', npi = Some ''2'', ndc = Some ''D1'',
               price = Num 40, quantity = Num 10\<rparr>]\<rparr>"

text \<open>A claim of a pharmacy that is not in the pharmacy data.\<close>

definition unknown_pharmacy_claims_df :: "claim frame" where
  "unknown_pharmacy_claims_df =
     \<lparr>columns = [''id'', ''npi'', ''ndc'', ''price'', ''quantity''],
      rows = [\<lparr>cid = Some ''c9'', npi = Some ''9'', ndc = Some ''D1'',
               price = Num 100, quantity = Num 10\<rparr>]\<rparr>"

text \<open>A claim with a negative price, as a refund or a correction is booked.\<close>

definition negative_price_claims_df :: "claim frame" where
  "negative_price_claims_df =
     \<lparr>columns = [''id'', ''npi'', ''ndc'', ''price'', ''quantity''],
      rows = [\<lparr>cid = Some ''c1'', npi = Some ''1'', ndc = Some ''D1'',
               price = Num (- 5), quantity = Num 1\<rparr>]\<rparr>"

subsection \<open>Notions the properties are stated with\<close>

text \<open>A number with at most two decimal places: a whole number of hundredths.\<close>

definition two_decimals :: "rat \<Rightarrow> bool" where
  "two_decimals x = (of_int \<lfloor>x * 100\<rfloor> = x * 100)"

text \<open>The chains that exist for a drug: the chains of the pharmacies joined to a valid
  claim of the drug, each once.\<close>

definition drug_chains :: "string \<Rightarrow> (priced_claim \<times> pharmacy) list \<Rightarrow> string list" where
  "drug_chains d joined =
     remdups (List.map_filter (\<lambda>(v, ph). if v_ndc v = Some d then chain ph else None) joined)"

text \<open>How often a quantity occurs for a drug: the number of claims of the drug whose
  quantity coerces to that number.\<close>

definition quantity_frequency :: "(string \<Rightarrow> rat option) \<Rightarrow> claim list \<Rightarrow> string \<Rightarrow> rat \<Rightarrow> nat" where
  "quantity_frequency parse claims d q =
     length [c \<leftarrow> claims. ndc c = Some d \<and> to_numeric parse (quantity c) = Some q]"

section \<open>Properties\<close>

subsection \<open>Grouping, joining and taking the head of groups\<close>

lemma map_filter_set: "set (List.map_filter f xs) = {y. \<exists>x\<in>set xs. f x = Some y}"
  by (auto simp: List.map_filter_def intro: rev_image_eqI)

lemma key2_eq: "key2 a b = Some (x, y) \<longleftrightarrow> a = Some x \<and> b = Some y"
  by (simp add: key2_def split: option.splits)

lemma groupby_keys: "map fst (groupby key rs) = sort (remdups (List.map_filter key rs))"
  by (simp add: groupby_def comp_def)

lemma groupby_distinct: "distinct (map fst (groupby key rs))"
  by (simp add: groupby_keys)

lemma groupby_mem:
  "(k, g) \<in> set (groupby key rs) \<longleftrightarrow>
     (\<exists>r\<in>set rs. key r = Some k) \<and> g = filter (\<lambda>r. key r = Some k) rs"
  by (auto simp: groupby_def map_filter_set)

lemma map_of_groupby:
  "map_of (map (\<lambda>(k, g). (k, f k g)) (groupby key rs)) k =
     (if \<exists>r\<in>set rs. key r = Some k then Some (f k (filter (\<lambda>r. key r = Some k) rs)) else None)"
proof (cases "\<exists>r\<in>set rs. key r = Some k")
  case True
  then have "(k, filter (\<lambda>r. key r = Some k) rs) \<in> set (groupby key rs)"
    by (simp add: groupby_mem)
  then have "(k, f k (filter (\<lambda>r. key r = Some k) rs))
      \<in> set (map (\<lambda>(k, g). (k, f k g)) (groupby key rs))"
    by force
  moreover have "distinct (map fst (map (\<lambda>(k, g). (k, f k g)) (groupby key rs)))"
    using groupby_distinct [of key rs] by (simp add: comp_def case_prod_unfold)
  ultimately show ?thesis using True by simp
next
  case False
  then have "k \<notin> fst ` set (map (\<lambda>(k, g). (k, f k g)) (groupby key rs))"
    by (auto simp: groupby_mem)
  then show ?thesis using False by (simp add: map_of_eq_None_iff)
qed

lemma filter_key_distinct:
  "distinct (map fst rs) \<Longrightarrow>
   filter (\<lambda>(k', b). k' = k) rs = (case map_of rs k of None \<Rightarrow> [] | Some b \<Rightarrow> [(k, b)])"
proof (induction rs)
  case Nil
  then show ?case by simp
next
  case (Cons r rs)
  obtain k' b where r: "r = (k', b)" by (cases r)
  show ?case
  proof (cases "k' = k")
    case True
    with Cons r have "k \<notin> fst ` set rs" by auto
    then have "filter (\<lambda>(k', b). k' = k) rs = []"
      by (force simp: filter_empty_conv)
    with True r show ?thesis by simp
  next
    case False
    with Cons r show ?thesis by simp
  qed
qed

text \<open>A left join against a table with one row per key is a lookup.\<close>

lemma merge_left_distinct:
  assumes "distinct (map fst rs)"
  shows "merge_left ls rs = map (\<lambda>(k, a). (k, a, map_of rs k)) ls"
proof -
  have h: "\<And>k a. (case filter (\<lambda>(k', b). k' = k) rs of [] \<Rightarrow> [(k, a, None)]
                | ms \<Rightarrow> map (\<lambda>(k', b). (k, a, Some b)) ms) = [(k, a, map_of rs k)]"
    by (simp add: filter_key_distinct [OF assms] split: option.split)
  show ?thesis
    unfolding merge_left_def by (induction ls) (auto simp: h)
qed

text \<open>Within one group, the head of the groups is the head of the group.\<close>

lemma group_head_acc_filter:
  "filter (\<lambda>r. key r = k) (group_head_acc n key seen rs) =
     take (n - count_list seen k) (filter (\<lambda>r. key r = k) rs)"
proof (induction rs arbitrary: seen)
  case Nil
  then show ?case by simp
next
  case (Cons r rs)
  show ?case
  proof (cases "key r = k")
    case True
    show ?thesis
    proof (cases "count_list seen k < n")
      case lt: True
      then have "n - count_list seen k = Suc (n - Suc (count_list seen k))" by simp
      with True lt show ?thesis by (simp add: Cons.IH)
    next
      case False
      with True show ?thesis by (simp add: Cons.IH)
    qed
  next
    case False
    then show ?thesis by (simp add: Cons.IH)
  qed
qed

lemma group_head_filter:
  "filter (\<lambda>r. key r = k) (group_head n key rs) = take n (filter (\<lambda>r. key r = k) rs)"
  by (simp add: group_head_def group_head_acc_filter)

subsection \<open>Goal 2: fills and reverted\<close>

lemma count_notna_map: "count_notna (map f xs) = length (filter (\<lambda>x. f x \<noteq> None) xs)"
  by (simp add: count_notna_def filter_map comp_def)

lemma reverts_count_distinct: "distinct (map fst (reverts_count claims reverts))"
  using groupby_distinct [of "\<lambda>c. key2 (npi c) (ndc c)"]
  by (simp add: reverts_count_def comp_def case_prod_unfold)

lemma metrics_df_distinct: "distinct (map fst (metrics_df valid))"
  using groupby_distinct [of "\<lambda>v. key2 (v_npi v) (v_ndc v)" valid]
  by (simp add: metrics_df_def comp_def case_prod_unfold)

lemma fills_count_mem:
  "((n, d), f) \<in> set (fills_count claims) \<Longrightarrow>
     f = length [c \<leftarrow> claims. npi c = Some n \<and> ndc c = Some d \<and> cid c \<noteq> None]"
  by (auto simp: fills_count_def groupby_mem key2_eq count_notna_map conj_ac)

lemma reverts_count_lookup:
  "(case map_of (reverts_count claims reverts) (n, d) of None \<Rightarrow> 0 | Some x \<Rightarrow> x) =
     length [c \<leftarrow> claims. npi c = Some n \<and> ndc c = Some d \<and> cid c \<noteq> None
                           \<and> cid c \<in> set (map claim_id reverts)]"
proof -
  let ?rc = "filter (\<lambda>c. cid c \<in> set (map claim_id reverts)) claims"
  have "map_of (reverts_count claims reverts) (n, d) =
     (if \<exists>r\<in>set ?rc. key2 (npi r) (ndc r) = Some (n, d)
      then Some (count_notna (map cid (filter (\<lambda>r. key2 (npi r) (ndc r) = Some (n, d)) ?rc)))
      else None)"
    unfolding reverts_count_def Let_def
    using map_of_groupby [of "\<lambda>k g. count_notna (map cid g)" "\<lambda>c. key2 (npi c) (ndc c)" ?rc "(n, d)"]
    by simp
  then show ?thesis
    by (auto simp: key2_eq count_notna_map conj_ac filter_empty_conv
        intro!: arg_cong [where f = length] filter_cong)
qed

text \<open>Every row of the Goal 2 result is a row of the fills table, completed by lookups in
  the two other tables.\<close>

lemma goal_2_result_row:
  assumes "m \<in> set (goal_2_result parse claims reverts)"
  shows "\<exists>f. ((fm_npi m, fm_ndc m), f) \<in> set (fills_count claims) \<and>
    m = fill_metric_row ((fm_npi m, fm_ndc m),
          (f, map_of (reverts_count claims reverts) (fm_npi m, fm_ndc m)),
          map_of (metrics_df (goal_2_valid_claims parse claims reverts)) (fm_npi m, fm_ndc m))"
proof -
  from assms obtain n d f where kf: "((n, d), f) \<in> set (fills_count claims)"
    and m: "m = fill_metric_row ((n, d), (f, map_of (reverts_count claims reverts) (n, d)),
          map_of (metrics_df (goal_2_valid_claims parse claims reverts)) (n, d))"
    by (auto simp: goal_2_result_def merge_left_distinct reverts_count_distinct metrics_df_distinct)
  from m have "fm_npi m = n" "fm_ndc m = d" by (simp_all add: fill_metric_row_def)
  with kf m show ?thesis by auto
qed

text \<open>
  \<^bold>\<open>C5.\<close> Every row of the Goal 2 result has \<open>reverted \<le> fills\<close>, where \<open>fills\<close> is the number
  of claims of the row's (npi, ndc) in the claims frame the function is given (before the
  revert filter) and \<open>reverted\<close> is the number of those whose id is among the revert
  \<open>claim_id\<close> values. The count is a count of ids, so a claim whose id is missing is in
  neither number; the pipeline drops such claims before it calls the function.
\<close>

theorem reverted_le_fills:
  assumes "calculate_goal_2_metrics parse claims_df reverts_df = Inr result"
    and "m \<in> set result"
  shows "reverted m \<le> fills m
    \<and> fills m = length [c \<leftarrow> rows claims_df.
        npi c = Some (fm_npi m) \<and> ndc c = Some (fm_ndc m) \<and> cid c \<noteq> None]
    \<and> reverted m = length [c \<leftarrow> rows claims_df.
        npi c = Some (fm_npi m) \<and> ndc c = Some (fm_ndc m) \<and> cid c \<noteq> None
        \<and> cid c \<in> set (map claim_id (rows reverts_df))]"
proof -
  let ?P = "\<lambda>c. npi c = Some (fm_npi m) \<and> ndc c = Some (fm_ndc m) \<and> cid c \<noteq> None"
  let ?Q = "\<lambda>c. npi c = Some (fm_npi m) \<and> ndc c = Some (fm_ndc m) \<and> cid c \<noteq> None
        \<and> cid c \<in> set (map claim_id (rows reverts_df))"
  from assms have "m \<in> set (goal_2_result parse (rows claims_df) (rows reverts_df))"
    by (auto simp: calculate_goal_2_metrics_def split: if_splits)
  from goal_2_result_row [OF this] obtain f
    where kf: "((fm_npi m, fm_ndc m), f) \<in> set (fills_count (rows claims_df))"
      and m: "m = fill_metric_row ((fm_npi m, fm_ndc m),
          (f, map_of (reverts_count (rows claims_df) (rows reverts_df)) (fm_npi m, fm_ndc m)),
          map_of (metrics_df (goal_2_valid_claims parse (rows claims_df) (rows reverts_df)))
            (fm_npi m, fm_ndc m))"
    by blast
  from m have "fills m = f"
    by (metis (no_types, lifting) fill_metric.select_convs(3) fill_metric_row_def old.prod.case)
  with fills_count_mem [OF kf] have fills: "fills m = length (filter ?P (rows claims_df))"
    by simp
  from m have "reverted m = (case map_of (reverts_count (rows claims_df) (rows reverts_df))
      (fm_npi m, fm_ndc m) of None \<Rightarrow> 0 | Some x \<Rightarrow> x)"
    by (metis (no_types, lifting) fill_metric.select_convs(4) fill_metric_row_def old.prod.case)
  then have rev: "reverted m = length (filter ?Q (rows claims_df))"
    by (simp only: reverts_count_lookup)
  have "length (filter ?Q (rows claims_df)) \<le> length (filter ?P (rows claims_df))"
  proof -
    have "filter ?Q (rows claims_df) =
        filter (\<lambda>c. cid c \<in> set (map claim_id (rows reverts_df))) (filter ?P (rows claims_df))"
      by (auto intro: filter_cong)
    then show ?thesis by (metis length_filter_le)
  qed
  with fills rev show ?thesis by simp
qed

text \<open>The scenario with claim \<open>c1\<close> reverted: its row has one fill and one revert.\<close>

theorem reverted_le_fills_witness:
  "calculate_goal_2_metrics parse_digits scenario_claims_df scenario_reverts_df =
     Inr [\<lparr>fm_npi = ''1'', fm_ndc = ''D1'', fills = 1, reverted = 1, avg_price = 0,
           total_price = 0\<rparr>,
          \<lparr>fm_npi = ''2'', fm_ndc = ''D1'', fills = 1, reverted = 0, avg_price = 5,
           total_price = 50\<rparr>]
   \<and> reverted \<lparr>fm_npi = ''1'', fm_ndc = ''D1'', fills = 1, reverted = 1, avg_price = 0,
           total_price = 0\<rparr>
     \<le> fills \<lparr>fm_npi = ''1'', fm_ndc = ''D1'', fills = 1, reverted = 1, avg_price = 0,
           total_price = 0\<rparr>"
proof -
  let ?m = "\<lparr>fm_npi = ''1'', fm_ndc = ''D1'', fills = 1, reverted = 1, avg_price = 0,
           total_price = 0\<rparr>"
  let ?m' = "\<lparr>fm_npi = ''2'', fm_ndc = ''D1'', fills = 1, reverted = 0, avg_price = 5,
           total_price = 50\<rparr>"
  have h: "calculate_goal_2_metrics parse_digits scenario_claims_df scenario_reverts_df
      = Inr [?m, ?m']"
    by code_simp
  have "?m \<in> set [?m, ?m']" by simp
  from reverted_le_fills [OF h this] h show ?thesis by blast
qed

subsection \<open>Goal 2: the price columns\<close>

lemma round2_two_decimals: "two_decimals (round2 x)"
  by (simp add: two_decimals_def round2_def)

lemma round_half_even_nonneg: "0 \<le> x \<Longrightarrow> 0 \<le> round_half_even x"
proof -
  assume "0 \<le> x"
  then have "0 \<le> \<lfloor>x\<rfloor>" by simp
  then show ?thesis by (simp add: round_half_even_def Let_def)
qed

lemma round2_nonneg: "0 \<le> x \<Longrightarrow> 0 \<le> round2 x"
  using round_half_even_nonneg [of "x * 100"] by (simp add: round2_def)

lemma sum_skipna_nonneg:
  assumes "\<And>x. Some x \<in> set xs \<Longrightarrow> 0 \<le> x"
  shows "0 \<le> sum_skipna xs"
  unfolding sum_skipna_def
  by (rule sum_list_nonneg) (use assms in \<open>auto simp: map_filter_set\<close>)

lemma mean_skipna_nonneg:
  assumes "\<And>x. Some x \<in> set xs \<Longrightarrow> 0 \<le> x" and "mean_skipna xs = Some a"
  shows "0 \<le> a"
proof -
  have "0 \<le> sum_list (List.map_filter (\<lambda>x. x) xs)"
    by (rule sum_list_nonneg) (use assms(1) in \<open>auto simp: map_filter_set\<close>)
  then have "0 \<le> sum_list (List.map_filter (\<lambda>x. x) xs) / of_nat (length (List.map_filter (\<lambda>x. x) xs))"
    by simp
  with assms(2) show ?thesis
    by (auto simp: mean_skipna_def Let_def split: if_splits)
qed

lemma goal_2_valid_claims_mem:
  assumes "v \<in> set (goal_2_valid_claims parse claims reverts)"
  shows "\<exists>c\<in>set claims. cid c \<notin> set (map claim_id reverts) \<and> v_id v = cid c \<and>
     v_npi v = npi c \<and> v_ndc v = ndc c \<and> v_price v = to_numeric parse (price c) \<and>
     v_quantity v = to_numeric parse (quantity c) \<and> v_price v \<noteq> None \<and>
     gt_zero (v_quantity v) \<and> unit_price v = fdiv (v_price v) (v_quantity v)"
  using assms by (auto simp: goal_2_valid_claims_def Let_def)

lemma fdiv_nonneg:
  "fdiv a b = Some u \<Longrightarrow> gt_zero b \<Longrightarrow> (\<And>x. a = Some x \<Longrightarrow> 0 \<le> x) \<Longrightarrow> 0 \<le> u"
  by (auto simp: fdiv_def gt_zero_def split: option.splits if_splits)

lemma metrics_df_lookup:
  "map_of (metrics_df valid) k = Some (a, t) \<Longrightarrow>
     a = mean_skipna (map unit_price (filter (\<lambda>v. key2 (v_npi v) (v_ndc v) = Some k) valid)) \<and>
     t = sum_skipna (map v_price (filter (\<lambda>v. key2 (v_npi v) (v_ndc v) = Some k) valid))"
  unfolding metrics_df_def
  using map_of_groupby [of "\<lambda>k g. (mean_skipna (map unit_price g), sum_skipna (map v_price g))"
      "\<lambda>v. key2 (v_npi v) (v_ndc v)" valid k]
  by (simp split: if_splits)

text \<open>
  \<^bold>\<open>C6\<close>, as the code has it. Every row of the Goal 2 result has an \<open>avg_price\<close> and a
  \<open>total_price\<close> rounded to two decimal places. The two are not negative when no claim
  has a negative price; the code keeps claims of any price, so nothing makes them
  non-negative otherwise.
\<close>

theorem prices_two_decimals:
  assumes "calculate_goal_2_metrics parse claims_df reverts_df = Inr result"
    and "m \<in> set result"
  shows "two_decimals (avg_price m) \<and> two_decimals (total_price m)
    \<and> ((\<forall>c\<in>set (rows claims_df). \<forall>x. to_numeric parse (price c) = Some x \<longrightarrow> 0 \<le> x)
         \<longrightarrow> 0 \<le> avg_price m \<and> 0 \<le> total_price m)"
proof -
  let ?valid = "goal_2_valid_claims parse (rows claims_df) (rows reverts_df)"
  let ?k = "(fm_npi m, fm_ndc m)"
  let ?g = "filter (\<lambda>v. key2 (v_npi v) (v_ndc v) = Some ?k) ?valid"
  let ?M = "map_of (metrics_df ?valid) ?k"
  from assms have "m \<in> set (goal_2_result parse (rows claims_df) (rows reverts_df))"
    by (auto simp: calculate_goal_2_metrics_def split: if_splits)
  from goal_2_result_row [OF this] obtain f
    where m: "m = fill_metric_row (?k,
          (f, map_of (reverts_count (rows claims_df) (rows reverts_df)) ?k), ?M)"
    by blast
  have avg: "avg_price m = round2 (case ?M of None \<Rightarrow> 0
                   | Some (a, t) \<Rightarrow> (case a of None \<Rightarrow> 0 | Some x \<Rightarrow> x))"
    by (subst m) (simp add: fill_metric_row_def)
  have total: "total_price m = round2 (case ?M of None \<Rightarrow> 0 | Some (a, t) \<Rightarrow> t)"
    by (subst m) (simp add: fill_metric_row_def)
  have dec: "two_decimals (avg_price m) \<and> two_decimals (total_price m)"
    by (simp only: avg total round2_two_decimals)
  have nonneg: "0 \<le> avg_price m \<and> 0 \<le> total_price m"
    if pos: "\<forall>c\<in>set (rows claims_df). \<forall>x. to_numeric parse (price c) = Some x \<longrightarrow> 0 \<le> x"
  proof -
    have price: "0 \<le> x" if "v \<in> set ?valid" "v_price v = Some x" for v x
      using goal_2_valid_claims_mem [OF that(1)] that(2) pos by metis
    have unit: "0 \<le> u" if "v \<in> set ?valid" "unit_price v = Some u" for v u
    proof -
      from goal_2_valid_claims_mem [OF that(1)]
      have "gt_zero (v_quantity v)" "unit_price v = fdiv (v_price v) (v_quantity v)"
        by auto
      with that(2) price [OF that(1)] show ?thesis
        using fdiv_nonneg [of "v_price v" "v_quantity v" u] by simp
    qed
    have "0 \<le> (case ?M of None \<Rightarrow> 0 | Some (a, t) \<Rightarrow> (case a of None \<Rightarrow> 0 | Some x \<Rightarrow> x))"
    proof (cases ?M)
      case None
      then show ?thesis by simp
    next
      case (Some mt)
      obtain a t where mt: "mt = (a, t)" by (cases mt)
      from metrics_df_lookup [of ?valid ?k a t] Some mt
      have a: "a = mean_skipna (map unit_price ?g)" by simp
      show ?thesis
      proof (cases a)
        case None
        with Some mt show ?thesis by simp
      next
        case (Some x)
        have "0 \<le> x"
        proof (rule mean_skipna_nonneg)
          show "mean_skipna (map unit_price ?g) = Some x" using a Some by simp
        next
          fix u assume "Some u \<in> set (map unit_price ?g)"
          then obtain v where "v \<in> set ?valid" "unit_price v = Some u" by auto
          then show "0 \<le> u" by (rule unit)
        qed
        with Some \<open>?M = Some mt\<close> mt show ?thesis by simp
      qed
    qed
    moreover have "0 \<le> (case ?M of None \<Rightarrow> 0 | Some (a, t) \<Rightarrow> t)"
    proof (cases ?M)
      case None
      then show ?thesis by simp
    next
      case (Some mt)
      obtain a t where mt: "mt = (a, t)" by (cases mt)
      from metrics_df_lookup [of ?valid ?k a t] Some mt
      have t: "t = sum_skipna (map v_price ?g)" by simp
      have "0 \<le> sum_skipna (map v_price ?g)"
      proof (rule sum_skipna_nonneg)
        fix x assume "Some x \<in> set (map v_price ?g)"
        then obtain v where "v \<in> set ?valid" "v_price v = Some x" by auto
        then show "0 \<le> x" by (rule price)
      qed
      with t Some mt show ?thesis by simp
    qed
    ultimately show ?thesis
      by (simp only: avg total round2_nonneg)
  qed
  from dec nonneg show ?thesis by blast
qed

text \<open>The scenario's Goal 2 rows: both prices of each row are whole hundredths and not
  negative.\<close>

theorem prices_two_decimals_witness:
  "calculate_goal_2_metrics parse_digits scenario_claims_df header_only_reverts_df =
     Inr [\<lparr>fm_npi = ''1'', fm_ndc = ''D1'', fills = 1, reverted = 0, avg_price = 10,
           total_price = 100\<rparr>,
          \<lparr>fm_npi = ''2'', fm_ndc = ''D1'', fills = 1, reverted = 0, avg_price = 5,
           total_price = 50\<rparr>]
   \<and> two_decimals (10 :: rat) \<and> two_decimals (100 :: rat) \<and> (0 :: rat) \<le> 10"
proof -
  let ?m = "\<lparr>fm_npi = ''1'', fm_ndc = ''D1'', fills = 1, reverted = 0, avg_price = 10,
           total_price = 100\<rparr>"
  let ?m' = "\<lparr>fm_npi = ''2'', fm_ndc = ''D1'', fills = 1, reverted = 0, avg_price = 5,
           total_price = 50\<rparr>"
  have h: "calculate_goal_2_metrics parse_digits scenario_claims_df header_only_reverts_df
      = Inr [?m, ?m']"
    by code_simp
  have p50: "parse_digits ''50'' = Some 50" by code_simp
  have pos: "\<forall>c\<in>set (rows scenario_claims_df). \<forall>x. to_numeric parse_digits (price c) = Some x
         \<longrightarrow> 0 \<le> x"
    by (auto simp: scenario_claims_df_def p50)
  have "?m \<in> set [?m, ?m']" by simp
  from prices_two_decimals [OF h this] pos
  have "two_decimals (avg_price ?m) \<and> two_decimals (total_price ?m) \<and> 0 \<le> avg_price ?m"
    by blast
  with h show ?thesis by simp
qed

text \<open>With one claim of price \<open>-5\<close> and quantity \<open>1\<close>, both price columns are \<open>-5\<close>.\<close>

theorem negative_price_counterexample:
  "calculate_goal_2_metrics parse_digits negative_price_claims_df header_only_reverts_df =
     Inr [\<lparr>fm_npi = ''1'', fm_ndc = ''D1'', fills = 1, reverted = 0, avg_price = - 5,
           total_price = - 5\<rparr>]
   \<and> avg_price \<lparr>fm_npi = ''1'', fm_ndc = ''D1'', fills = 1, reverted = 0, avg_price = - 5,
           total_price = - 5\<rparr> < 0
   \<and> total_price \<lparr>fm_npi = ''1'', fm_ndc = ''D1'', fills = 1, reverted = 0, avg_price = - 5,
           total_price = - 5\<rparr> < 0"
proof -
  have "calculate_goal_2_metrics parse_digits negative_price_claims_df header_only_reverts_df =
     Inr [\<lparr>fm_npi = ''1'', fm_ndc = ''D1'', fills = 1, reverted = 0, avg_price = - 5,
           total_price = - 5\<rparr>]"
    by code_simp
  then show ?thesis by simp
qed

subsection \<open>Goal 3: the chain lists\<close>

lemma goal_3_valid_claims_mem:
  assumes "v \<in> set (goal_3_valid_claims parse claims reverts)"
  shows "\<exists>c\<in>set claims. cid c \<notin> set (map claim_id reverts) \<and> v_id v = cid c \<and>
     v_npi v = npi c \<and> v_ndc v = ndc c \<and> v_price v = to_numeric parse (price c) \<and>
     v_quantity v = to_numeric parse (quantity c) \<and> v_price v \<noteq> None \<and>
     gt_zero (v_quantity v) \<and> unit_price v = fdiv (v_price v) (v_quantity v)"
  using assms by (auto simp: goal_3_valid_claims_def Let_def)

lemma fdiv_defined: "a \<noteq> None \<Longrightarrow> gt_zero b \<Longrightarrow> \<exists>x y. a = Some x \<and> b = Some y \<and> 0 < y \<and> fdiv a b = Some (x / y)"
  by (auto simp: fdiv_def gt_zero_def split: option.splits)

lemma goal_3_unit_price:
  "v \<in> set (goal_3_valid_claims parse claims reverts) \<Longrightarrow> unit_price v \<noteq> None"
proof -
  assume "v \<in> set (goal_3_valid_claims parse claims reverts)"
  from goal_3_valid_claims_mem [OF this]
  have "v_price v \<noteq> None" "gt_zero (v_quantity v)"
    "unit_price v = fdiv (v_price v) (v_quantity v)"
    by auto
  with fdiv_defined [of "v_price v" "v_quantity v"] show ?thesis by auto
qed

lemma chain_prices_df_mem:
  "(v, ph) \<in> set (chain_prices_df valid pharmacies) \<longleftrightarrow>
     v \<in> set valid \<and> ph \<in> set pharmacies \<and> pnpi ph = v_npi v"
  by (auto simp: chain_prices_df_def)

lemma mean_skipna_defined:
  "xs \<noteq> [] \<Longrightarrow> None \<notin> set xs \<Longrightarrow> mean_skipna xs \<noteq> None"
proof -
  assume "xs \<noteq> []" "None \<notin> set xs"
  then obtain y where "Some y \<in> set xs"
    by (cases xs) (auto, metis option.exhaust)
  then have "set (List.map_filter (\<lambda>x. x) xs) \<noteq> {}"
    by (auto simp: map_filter_set)
  then show ?thesis by (auto simp: mean_skipna_def Let_def)
qed

lemma avg_chain_price_df_mem:
  "(d, ch, a) \<in> set (avg_chain_price_df joined) \<longleftrightarrow>
     (\<exists>(v, ph)\<in>set joined. v_ndc v = Some d \<and> chain ph = Some ch) \<and>
     a = map_option round2 (mean_skipna (map (\<lambda>(v, ph). unit_price v)
           (filter (\<lambda>(v, ph). key2 (v_ndc v) (chain ph) = Some (d, ch)) joined)))"
proof -
  let ?f = "\<lambda>g. map_option round2 (mean_skipna (map (\<lambda>(v, ph). unit_price v) g))"
  have "(d, ch, a) \<in> set (avg_chain_price_df joined) \<longleftrightarrow>
      (\<exists>g. ((d, ch), g) \<in> set (groupby (\<lambda>(v, ph). key2 (v_ndc v) (chain ph)) joined) \<and> a = ?f g)"
    by (force simp: avg_chain_price_df_def)
  then show ?thesis
    by (auto simp: groupby_mem key2_eq case_prod_unfold)
qed

lemma avg_chain_price_df_distinct:
  "distinct (map (\<lambda>r. (fst r, fst (snd r))) (avg_chain_price_df joined))"
  using groupby_distinct [of "\<lambda>(v, ph). key2 (v_ndc v) (chain ph)" joined]
  by (simp add: avg_chain_price_df_def comp_def case_prod_unfold)

lemma drug_chains_set:
  "set (drug_chains d joined) = {ch. \<exists>(v, ph)\<in>set joined. v_ndc v = Some d \<and> chain ph = Some ch}"
proof (rule set_eqI)
  fix ch
  have "ch \<in> set (drug_chains d joined) \<longleftrightarrow>
      (\<exists>p\<in>set joined. (if v_ndc (fst p) = Some d then chain (snd p) else None) = Some ch)"
    by (simp add: drug_chains_def map_filter_set case_prod_unfold)
  also have "\<dots> \<longleftrightarrow> (\<exists>p\<in>set joined. v_ndc (fst p) = Some d \<and> chain (snd p) = Some ch)"
    by (rule bex_cong) (auto split: if_splits)
  finally show "ch \<in> set (drug_chains d joined) \<longleftrightarrow>
      ch \<in> {ch. \<exists>(v, ph)\<in>set joined. v_ndc v = Some d \<and> chain ph = Some ch}"
    by (simp add: case_prod_unfold)
qed

lemma avg_chain_price_df_drug:
  "length (filter (\<lambda>r. fst r = d) (avg_chain_price_df joined)) = length (drug_chains d joined)"
    "distinct (map (\<lambda>r. fst (snd r)) (filter (\<lambda>r. fst r = d) (avg_chain_price_df joined)))"
    "set (map (\<lambda>r. fst (snd r)) (filter (\<lambda>r. fst r = d) (avg_chain_price_df joined)))
        = set (drug_chains d joined)"
proof -
  let ?B = "filter (\<lambda>r. fst r = d) (avg_chain_price_df joined)"
  have "distinct (map (\<lambda>r. (fst r, fst (snd r))) ?B)"
    using avg_chain_price_df_distinct [of joined] by (rule distinct_map_filter)
  then have dB: "distinct ?B" and inj: "inj_on (\<lambda>r. (fst r, fst (snd r))) (set ?B)"
    by (simp_all add: distinct_map)
  have "inj_on (\<lambda>r. fst (snd r)) (set ?B)"
  proof (rule inj_onI)
    fix r r' assume "r \<in> set ?B" "r' \<in> set ?B" "fst (snd r) = fst (snd r')"
    then have "(fst r, fst (snd r)) = (fst r', fst (snd r'))" by simp
    with inj \<open>r \<in> set ?B\<close> \<open>r' \<in> set ?B\<close> show "r = r'" by (meson inj_onD)
  qed
  with dB show d: "distinct (map (\<lambda>r. fst (snd r)) ?B)"
    by (simp add: distinct_map)
  show s: "set (map (\<lambda>r. fst (snd r)) ?B) = set (drug_chains d joined)"
  proof (rule set_eqI)
    fix ch
    have "ch \<in> set (map (\<lambda>r. fst (snd r)) ?B)
        \<longleftrightarrow> (\<exists>a. (d, ch, a) \<in> set (avg_chain_price_df joined))"
      by force
    also have "\<dots> \<longleftrightarrow> ch \<in> set (drug_chains d joined)"
      by (simp add: avg_chain_price_df_mem drug_chains_set)
    finally show "ch \<in> set (map (\<lambda>r. fst (snd r)) ?B) \<longleftrightarrow> ch \<in> set (drug_chains d joined)" .
  qed
  have "length ?B = length (map (\<lambda>r. fst (snd r)) ?B)" by simp
  also have "\<dots> = card (set (map (\<lambda>r. fst (snd r)) ?B))"
    using d by (simp only: distinct_card)
  also have "\<dots> = card (set (drug_chains d joined))" by (simp only: s)
  also have "\<dots> = length (drug_chains d joined)"
    by (simp add: drug_chains_def length_remdups_card_conv)
  finally show "length ?B = length (drug_chains d joined)" .
qed

lemma top_2_chains_filter:
  "filter (\<lambda>r. fst r = d) (top_2_chains avg) =
     take 2 (sort_key (\<lambda>(d, ch, a). nan_last a) (filter (\<lambda>r. fst r = d) avg))"
  by (simp add: top_2_chains_def group_head_filter filter_sort)

lemma goal_3_result_mem:
  assumes "rec \<in> set (goal_3_result parse claims pharmacies reverts)"
  shows "cr_chain rec = format_chains (take 2 (sort_key (\<lambda>(d, ch, a). nan_last a)
           (filter (\<lambda>r. fst r = cr_ndc rec) (avg_chain_price_df
             (chain_prices_df (goal_3_valid_claims parse claims reverts) pharmacies)))))
     \<and> cr_chain rec \<noteq> []"
proof -
  let ?A = "avg_chain_price_df (chain_prices_df (goal_3_valid_claims parse claims reverts) pharmacies)"
  from assms obtain d g where dg: "(d, g) \<in> set (groupby (\<lambda>r. Some (fst r)) (top_2_chains ?A))"
    and r: "rec = \<lparr>cr_ndc = d, cr_chain = format_chains g\<rparr>"
    by (auto simp: goal_3_result_def)
  from dg have g: "g = filter (\<lambda>r. fst r = d) (top_2_chains ?A)" and "\<exists>r\<in>set (top_2_chains ?A). fst r = d"
    by (simp_all add: groupby_mem)
  then have "g \<noteq> []" by (auto simp: filter_empty_conv)
  with g r show ?thesis
    by (simp add: top_2_chains_filter format_chains_def)
qed

lemma avg_chain_price_df_defined:
  assumes "(d, ch, a) \<in> set (avg_chain_price_df (chain_prices_df (goal_3_valid_claims parse claims reverts) pharmacies))"
  shows "a \<noteq> None"
    and "\<exists>v\<in>set (goal_3_valid_claims parse claims reverts). v_ndc v = Some d"
proof -
  let ?valid = "goal_3_valid_claims parse claims reverts"
  let ?J = "chain_prices_df ?valid pharmacies"
  let ?g = "filter (\<lambda>(v, ph). key2 (v_ndc v) (chain ph) = Some (d, ch)) ?J"
  from assms obtain v ph where vph: "(v, ph) \<in> set ?J" "v_ndc v = Some d" "chain ph = Some ch"
    and a: "a = map_option round2 (mean_skipna (map (\<lambda>(v, ph). unit_price v) ?g))"
    unfolding avg_chain_price_df_mem by blast
  from vph have "(v, ph) \<in> set ?g" by (simp add: key2_eq)
  then have "?g \<noteq> []" by (metis empty_iff empty_set)
  then have ne: "map (\<lambda>(v, ph). unit_price v) ?g \<noteq> []" by (simp only: map_is_Nil_conv not_False_eq_True)
  have "None \<notin> set (map (\<lambda>(v, ph). unit_price v) ?g)"
  proof
    assume "None \<in> set (map (\<lambda>(v, ph). unit_price v) ?g)"
    then obtain v' ph' where "(v', ph') \<in> set ?J" "unit_price v' = None" by auto
    then show False
      using goal_3_unit_price [of v' parse claims reverts] by (simp add: chain_prices_df_mem)
  qed
  with ne have "mean_skipna (map (\<lambda>(v, ph). unit_price v) ?g) \<noteq> None"
    by (rule mean_skipna_defined)
  with a show "a \<noteq> None" by simp
  from vph show "\<exists>v\<in>set ?valid. v_ndc v = Some d"
    by (auto simp: chain_prices_df_mem)
qed

lemma nan_last_le: "nan_last (Some x) \<le> nan_last (Some y) \<longleftrightarrow> x \<le> y"
  by (simp add: nan_last_def)

lemma nan_last_sorted:
  assumes "sorted (map (\<lambda>r. nan_last (f r)) xs)" and "\<forall>r\<in>set xs. f r \<noteq> None"
  shows "sorted (map (\<lambda>r. the (f r)) xs)"
proof -
  have "sorted_wrt (\<lambda>r r'. nan_last (f r) \<le> nan_last (f r')) xs"
    using assms(1) by (simp add: sorted_wrt_map)
  then have "sorted_wrt (\<lambda>r r'. the (f r) \<le> the (f r')) xs"
  proof (rule sorted_wrt_mono_rel [rotated])
    fix r r' assume "r \<in> set xs" "r' \<in> set xs" "nan_last (f r) \<le> nan_last (f r')"
    moreover from assms(2) \<open>r \<in> set xs\<close> \<open>r' \<in> set xs\<close>
    obtain x y where "f r = Some x" "f r' = Some y" by blast
    ultimately show "the (f r) \<le> the (f r')"
      by (simp add: nan_last_le)
  qed
  then show ?thesis by (simp add: sorted_wrt_map)
qed

lemma goal_3_result_chains:
  assumes "rec \<in> set (goal_3_result parse claims pharmacies reverts)"
  shows "length (cr_chain rec) \<le> 2
    \<and> sorted (map (\<lambda>e. the (ce_avg_price e)) (cr_chain rec))
    \<and> (\<forall>e\<in>set (cr_chain rec). ce_avg_price e \<noteq> None)
    \<and> length (cr_chain rec) = min 2 (length (drug_chains (cr_ndc rec)
          (chain_prices_df (goal_3_valid_claims parse claims reverts) pharmacies)))
    \<and> distinct (map ce_name (cr_chain rec))
    \<and> set (map ce_name (cr_chain rec)) \<subseteq> set (drug_chains (cr_ndc rec)
          (chain_prices_df (goal_3_valid_claims parse claims reverts) pharmacies))
    \<and> cr_chain rec \<noteq> []
    \<and> (\<exists>v\<in>set (goal_3_valid_claims parse claims reverts). v_ndc v = Some (cr_ndc rec))"
proof -
  let ?J = "chain_prices_df (goal_3_valid_claims parse claims reverts) pharmacies"
  let ?A = "avg_chain_price_df ?J"
  let ?d = "cr_ndc rec"
  let ?B = "filter (\<lambda>r. fst r = ?d) ?A"
  let ?S = "sort_key (\<lambda>(d, ch, a). nan_last a) ?B"
  let ?g = "take 2 ?S"
  from goal_3_result_mem [OF assms]
  have chain: "cr_chain rec = format_chains ?g" and ne: "cr_chain rec \<noteq> []" by blast+
  have avg: "map ce_avg_price (format_chains g) = map (\<lambda>r. snd (snd r)) g"
    and name: "map ce_name (format_chains g) = map (\<lambda>r. fst (snd r)) g" for g
    by (simp_all add: format_chains_def case_prod_unfold)
  have gB: "set ?g \<subseteq> set ?B"
    using set_take_subset [of 2 ?S] by simp
  have defined: "snd (snd r) \<noteq> None" if "r \<in> set ?g" for r
  proof -
    from that gB have "(fst r, fst (snd r), snd (snd r)) \<in> set ?A" by auto
    then show ?thesis by (rule avg_chain_price_df_defined(1))
  qed
  have len: "length (cr_chain rec) = min 2 (length (drug_chains ?d ?J))"
    by (simp add: chain format_chains_def avg_chain_price_df_drug(1))
  have "sorted (map (\<lambda>(d, ch, a). nan_last a) ?S)" by (rule sorted_sort_key)
  then have "sorted (map (\<lambda>r. nan_last (snd (snd r))) ?S)" by (simp add: case_prod_unfold)
  then have "sorted (take 2 (map (\<lambda>r. nan_last (snd (snd r))) ?S))" by (rule sorted_wrt_take)
  then have "sorted (map (\<lambda>r. nan_last (snd (snd r))) ?g)" by (simp add: take_map)
  then have "sorted (map (\<lambda>r. the (snd (snd r))) ?g)"
    using defined by (intro nan_last_sorted) auto
  then have srt: "sorted (map (\<lambda>e. the (ce_avg_price e)) (cr_chain rec))"
    by (simp add: chain format_chains_def comp_def case_prod_unfold)
  have some: "\<forall>e\<in>set (cr_chain rec). ce_avg_price e \<noteq> None"
  proof
    fix e assume "e \<in> set (cr_chain rec)"
    then have "ce_avg_price e \<in> set (map ce_avg_price (format_chains ?g))"
      by (simp add: chain)
    then obtain r where "r \<in> set ?g" "ce_avg_price e = snd (snd r)"
      unfolding avg by auto
    with defined show "ce_avg_price e \<noteq> None" by simp
  qed
  have "distinct (map (\<lambda>r. fst (snd r)) ?B)" by (rule avg_chain_price_df_drug(2))
  then have "distinct ?B \<and> inj_on (\<lambda>r. fst (snd r)) (set ?B)" by (simp add: distinct_map)
  then have "distinct (map (\<lambda>r. fst (snd r)) ?S)" by (simp add: distinct_map)
  then have "distinct (take 2 (map (\<lambda>r. fst (snd r)) ?S))" by (rule distinct_take)
  then have dist: "distinct (map ce_name (cr_chain rec))"
    by (simp add: chain name take_map)
  have "set (map (\<lambda>r. fst (snd r)) ?g) \<subseteq> set (map (\<lambda>r. fst (snd r)) ?B)"
    using gB by auto
  then have sub: "set (map ce_name (cr_chain rec)) \<subseteq> set (drug_chains ?d ?J)"
    by (simp only: chain name avg_chain_price_df_drug(3))
  from ne chain obtain r where "r \<in> set ?g" by (cases ?g) (auto simp: format_chains_def)
  with gB have "r \<in> set ?A" "fst r = ?d" by auto
  then have "(?d, fst (snd r), snd (snd r)) \<in> set ?A" by (metis prod.collapse)
  then have ex: "\<exists>v\<in>set (goal_3_valid_claims parse claims reverts). v_ndc v = Some ?d"
    by (rule avg_chain_price_df_defined(2))
  have "length (cr_chain rec) \<le> 2" by (simp add: chain format_chains_def)
  with srt some len dist sub ne ex show ?thesis by blast
qed

text \<open>
  \<^bold>\<open>C4.\<close> Every record of the Goal 3 result lists at most two chains, in ascending order
  of their average price, each with an average. The list holds as many chains as exist for
  the drug, up to two, with no chain twice and only chains of the drug, so with fewer than
  two chains all of them are listed. No record has an empty list: a drug has a record only
  if a valid claim of it exists.
\<close>

theorem goal_3_chain_lists:
  assumes "calculate_goal_3_recommendations parse claims_df pharmacy_df reverts_df = Inr result"
    and "rec \<in> set result"
  shows "length (cr_chain rec) \<le> 2
    \<and> sorted (map (\<lambda>e. the (ce_avg_price e)) (cr_chain rec))
    \<and> (\<forall>e\<in>set (cr_chain rec). ce_avg_price e \<noteq> None)
    \<and> length (cr_chain rec) = min 2 (length (drug_chains (cr_ndc rec)
          (chain_prices_df (goal_3_valid_claims parse (rows claims_df) (rows reverts_df))
             (rows pharmacy_df))))
    \<and> distinct (map ce_name (cr_chain rec))
    \<and> set (map ce_name (cr_chain rec)) \<subseteq> set (drug_chains (cr_ndc rec)
          (chain_prices_df (goal_3_valid_claims parse (rows claims_df) (rows reverts_df))
             (rows pharmacy_df)))
    \<and> cr_chain rec \<noteq> []
    \<and> (\<exists>v\<in>set (goal_3_valid_claims parse (rows claims_df) (rows reverts_df)).
          v_ndc v = Some (cr_ndc rec))"
proof -
  from assms
  have "rec \<in> set (goal_3_result parse (rows claims_df) (rows pharmacy_df) (rows reverts_df))"
    by (auto simp: calculate_goal_3_recommendations_def split: if_splits)
  then show ?thesis by (rule goal_3_result_chains)
qed

text \<open>The scenario: drug \<open>D1\<close> has the two chains \<open>B\<close> (5.0) and \<open>A\<close> (10.0).\<close>

theorem goal_3_chain_lists_witness:
  "calculate_goal_3_recommendations parse_digits scenario_claims_df scenario_pharmacy_df
       header_only_reverts_df
     = Inr [\<lparr>cr_ndc = ''D1'', cr_chain = [\<lparr>ce_name = ''B'', ce_avg_price = Some 5\<rparr>,
                                          \<lparr>ce_name = ''A'', ce_avg_price = Some 10\<rparr>]\<rparr>]
   \<and> min 2 (length (drug_chains ''D1''
        (chain_prices_df (goal_3_valid_claims parse_digits (rows scenario_claims_df)
           (rows header_only_reverts_df)) (rows scenario_pharmacy_df)))) = 2"
proof -
  let ?rec = "\<lparr>cr_ndc = ''D1'', cr_chain = [\<lparr>ce_name = ''B'', ce_avg_price = Some 5\<rparr>,
                                          \<lparr>ce_name = ''A'', ce_avg_price = Some 10\<rparr>]\<rparr>"
  have h: "calculate_goal_3_recommendations parse_digits scenario_claims_df scenario_pharmacy_df
       header_only_reverts_df = Inr [?rec]"
    by code_simp
  have "?rec \<in> set [?rec]" by simp
  from goal_3_chain_lists [OF h this]
  have "length (cr_chain ?rec) = min 2 (length (drug_chains (cr_ndc ?rec)
          (chain_prices_df (goal_3_valid_claims parse_digits (rows scenario_claims_df)
             (rows header_only_reverts_df)) (rows scenario_pharmacy_df))))"
    by blast
  then have "min 2 (length (drug_chains ''D1''
        (chain_prices_df (goal_3_valid_claims parse_digits (rows scenario_claims_df)
           (rows header_only_reverts_df)) (rows scenario_pharmacy_df)))) = 2"
    by simp
  with h show ?thesis by simp
qed

subsection \<open>Goal 4: the quantity lists\<close>

lemma coerce_quantity_number:
  "cell_number (quantity (coerce_quantity parse c)) = to_numeric parse (quantity c)"
  "ndc (coerce_quantity parse c) = ndc c"
  "quantity (coerce_quantity parse c) \<noteq> Null \<longleftrightarrow> to_numeric parse (quantity c) \<noteq> None"
  by (simp_all add: coerce_quantity_def split: option.splits)

lemma goal_4_claims_filter:
  "length (filter (\<lambda>c. key2 (ndc c) (cell_number (quantity c)) = Some (d, q))
       (goal_4_claims parse claims)) = quantity_frequency parse claims d q"
proof -
  have "filter (\<lambda>c. key2 (ndc c) (cell_number (quantity c)) = Some (d, q))
       (goal_4_claims parse claims) =
     map (coerce_quantity parse)
       (filter (\<lambda>c. ndc c = Some d \<and> to_numeric parse (quantity c) = Some q) claims)"
    unfolding goal_4_claims_def filter_map filter_filter comp_def
    by (rule arg_cong [where f = "map (coerce_quantity parse)"], rule filter_cong)
      (auto simp: key2_eq coerce_quantity_number)
  then show ?thesis by (simp add: quantity_frequency_def)
qed

lemma quantity_counts_mem:
  "(d, q, n) \<in> set (quantity_counts (goal_4_claims parse claims)) \<longleftrightarrow>
     n = quantity_frequency parse claims d q \<and> 0 < n"
proof -
  let ?G = "goal_4_claims parse claims"
  let ?key = "\<lambda>c. key2 (ndc c) (cell_number (quantity c))"
  define F where "F = filter (\<lambda>r. ?key r = Some (d, q)) ?G"
  have lenF: "length F = quantity_frequency parse claims d q"
    unfolding F_def by (rule goal_4_claims_filter)
  have "(d, q, n) \<in> set (quantity_counts ?G) \<longleftrightarrow>
      (\<exists>g. ((d, q), g) \<in> set (groupby ?key ?G) \<and> n = length g)"
    by (force simp: quantity_counts_def)
  also have "\<dots> \<longleftrightarrow> (\<exists>r\<in>set ?G. ?key r = Some (d, q)) \<and> n = length F"
    unfolding F_def by (auto simp: groupby_mem)
  also have "(\<exists>r\<in>set ?G. ?key r = Some (d, q)) \<longleftrightarrow> F \<noteq> []"
    unfolding F_def by (simp add: filter_empty_conv)
  also have "F \<noteq> [] \<and> n = length F \<longleftrightarrow> n = quantity_frequency parse claims d q \<and> 0 < n"
    unfolding lenF [symmetric] by auto
  finally show ?thesis .
qed

lemma quantity_counts_distinct:
  "distinct (map (\<lambda>r. (fst r, fst (snd r))) (quantity_counts claims))"
  using groupby_distinct [of "\<lambda>c. key2 (ndc c) (cell_number (quantity c))" claims]
  by (simp add: quantity_counts_def comp_def case_prod_unfold)

lemma top_5_quantities_filter:
  "filter (\<lambda>r. fst r = d) (top_5_quantities counts) =
     take 5 (sort_key (\<lambda>(d, q, n). - int n) (filter (\<lambda>r. fst r = d) counts))"
  by (simp add: top_5_quantities_def group_head_filter filter_sort)

lemma goal_4_result_mem:
  assumes "pr \<in> set (goal_4_result claims)"
  shows "most_prescribed_quantity pr = map (\<lambda>r. fst (snd r))
      (take 5 (sort_key (\<lambda>(d, q, n). - int n)
         (filter (\<lambda>r. fst r = qp_ndc pr) (quantity_counts claims))))
     \<and> most_prescribed_quantity pr \<noteq> []"
proof -
  from assms obtain d g
    where dg: "(d, g) \<in> set (groupby (\<lambda>r. Some (fst r)) (top_5_quantities (quantity_counts claims)))"
      and r: "pr = \<lparr>qp_ndc = d, most_prescribed_quantity = map (\<lambda>(d', q, n). q) g\<rparr>"
    by (auto simp: goal_4_result_def)
  from dg have g: "g = filter (\<lambda>r. fst r = d) (top_5_quantities (quantity_counts claims))"
    and "\<exists>r\<in>set (top_5_quantities (quantity_counts claims)). fst r = d"
    by (simp_all add: groupby_mem)
  then have "g \<noteq> []" by (auto simp: filter_empty_conv)
  with g r show ?thesis
    by (simp add: top_5_quantities_filter case_prod_unfold)
qed

lemma goal_4_result_quantities:
  assumes "pr \<in> set (goal_4_result (goal_4_claims parse claims))"
  shows "length (most_prescribed_quantity pr) \<le> 5
    \<and> sorted_wrt (\<lambda>q q'. quantity_frequency parse claims (qp_ndc pr) q'
                          \<le> quantity_frequency parse claims (qp_ndc pr) q)
        (most_prescribed_quantity pr)
    \<and> (\<forall>q\<in>set (most_prescribed_quantity pr). 0 < quantity_frequency parse claims (qp_ndc pr) q)
    \<and> (\<forall>q\<in>set (most_prescribed_quantity pr). \<forall>q'. q' \<notin> set (most_prescribed_quantity pr) \<longrightarrow>
          quantity_frequency parse claims (qp_ndc pr) q'
            \<le> quantity_frequency parse claims (qp_ndc pr) q)
    \<and> distinct (most_prescribed_quantity pr)
    \<and> most_prescribed_quantity pr \<noteq> []"
proof -
  let ?d = "qp_ndc pr"
  let ?freq = "quantity_frequency parse claims ?d"
  let ?C = "quantity_counts (goal_4_claims parse claims)"
  let ?B = "filter (\<lambda>r. fst r = ?d) ?C"
  let ?S = "sort_key (\<lambda>(d, q, n). - int n) ?B"
  let ?g = "take 5 ?S"
  let ?mpq = "most_prescribed_quantity pr"
  from goal_4_result_mem [OF assms]
  have mpq: "?mpq = map (\<lambda>r. fst (snd r)) ?g" and ne: "?mpq \<noteq> []" by blast+
  have row: "snd (snd r) = ?freq (fst (snd r)) \<and> 0 < ?freq (fst (snd r))" if "r \<in> set ?S" for r
  proof -
    from that have "r \<in> set ?C" "fst r = ?d" by auto
    then have "(?d, fst (snd r), snd (snd r)) \<in> set ?C" by (metis prod.collapse)
    then have "snd (snd r) = ?freq (fst (snd r)) \<and> 0 < snd (snd r)"
      unfolding quantity_counts_mem .
    then show ?thesis by metis
  qed
  have gS: "set ?g \<subseteq> set ?S" by (rule set_take_subset)
  have "sorted (map (\<lambda>(d, q, n). - int n) ?S)" by (rule sorted_sort_key)
  then have "sorted_wrt (\<lambda>r r'. - int (snd (snd r)) \<le> - int (snd (snd r'))) ?S"
    by (simp add: sorted_wrt_map case_prod_unfold)
  then have sS: "sorted_wrt (\<lambda>r r'. ?freq (fst (snd r')) \<le> ?freq (fst (snd r))) ?S"
  proof (rule sorted_wrt_mono_rel [rotated])
    fix r r' assume "r \<in> set ?S" "r' \<in> set ?S" "- int (snd (snd r)) \<le> - int (snd (snd r'))"
    with row [of r] row [of r'] show "?freq (fst (snd r')) \<le> ?freq (fst (snd r))" by simp
  qed
  then have "sorted_wrt (\<lambda>r r'. ?freq (fst (snd r')) \<le> ?freq (fst (snd r))) ?g"
    by (rule sorted_wrt_take)
  then have srt: "sorted_wrt (\<lambda>q q'. ?freq q' \<le> ?freq q) ?mpq"
    by (simp add: mpq sorted_wrt_map)
  have pos: "\<forall>q\<in>set ?mpq. 0 < ?freq q"
    using row gS by (auto simp: mpq)
  have "distinct (map (\<lambda>r. (fst r, fst (snd r))) ?B)"
    using quantity_counts_distinct by (rule distinct_map_filter)
  then have dB: "distinct ?B" and inj: "inj_on (\<lambda>r. (fst r, fst (snd r))) (set ?B)"
    by (simp_all add: distinct_map)
  have injq: "inj_on (\<lambda>r. fst (snd r)) (set ?B)"
  proof (rule inj_onI)
    fix r r' assume "r \<in> set ?B" "r' \<in> set ?B" "fst (snd r) = fst (snd r')"
    then have "(fst r, fst (snd r)) = (fst r', fst (snd r'))" by simp
    with inj \<open>r \<in> set ?B\<close> \<open>r' \<in> set ?B\<close> show "r = r'" by (meson inj_onD)
  qed
  with dB have dS: "distinct (map (\<lambda>r. fst (snd r)) ?S)" by (simp add: distinct_map)
  then have "distinct (take 5 (map (\<lambda>r. fst (snd r)) ?S))" by (rule distinct_take)
  then have dist: "distinct ?mpq" by (simp add: mpq take_map)
  have top: "\<forall>q\<in>set ?mpq. \<forall>q'. q' \<notin> set ?mpq \<longrightarrow> ?freq q' \<le> ?freq q"
  proof (intro ballI allI impI)
    fix q q' assume q: "q \<in> set ?mpq" and q': "q' \<notin> set ?mpq"
    show "?freq q' \<le> ?freq q"
    proof (cases "0 < ?freq q'")
      case False
      then show ?thesis by simp
    next
      case True
      then have "(?d, q', ?freq q') \<in> set ?C" by (simp add: quantity_counts_mem)
      then have inS: "(?d, q', ?freq q') \<in> set ?S" by simp
      have "(?d, q', ?freq q') \<notin> set ?g"
      proof
        assume "(?d, q', ?freq q') \<in> set ?g"
        then have "(\<lambda>r. fst (snd r)) (?d, q', ?freq q') \<in> (\<lambda>r. fst (snd r)) ` set ?g"
          by (rule imageI)
        then have "q' \<in> set ?mpq" by (simp add: mpq)
        with q' show False by contradiction
      qed
      moreover have "set ?S = set ?g \<union> set (drop 5 ?S)"
        by (metis append_take_drop_id set_append)
      ultimately have r': "(?d, q', ?freq q') \<in> set (drop 5 ?S)"
        using inS by blast
      from q obtain r where r: "r \<in> set ?g" "fst (snd r) = q"
        unfolding mpq set_map by blast
      have "sorted_wrt (\<lambda>r r'. ?freq (fst (snd r')) \<le> ?freq (fst (snd r))) (?g @ drop 5 ?S)"
        using sS by (simp only: append_take_drop_id)
      then have "\<forall>x\<in>set ?g. \<forall>y\<in>set (drop 5 ?S). ?freq (fst (snd y)) \<le> ?freq (fst (snd x))"
        unfolding sorted_wrt_append by (elim conjE)
      with r(1) r' have "?freq (fst (snd (?d, q', ?freq q'))) \<le> ?freq (fst (snd r))" by blast
      with r(2) show ?thesis by simp
    qed
  qed
  have "length ?mpq \<le> 5" by (simp add: mpq)
  with srt pos top dist ne show ?thesis by blast
qed

text \<open>
  \<^bold>\<open>C9.\<close> Every record of the Goal 4 result lists at most five quantities, in descending
  order of their frequency among the drug's claims with a coercible quantity. The listed
  quantities are distinct, each occurs, and none that is left out occurs more often than
  one that is listed.
\<close>

theorem goal_4_quantity_lists:
  assumes "snd (calculate_goal_4_common_quantities parse claims_df) = Inr result"
    and "pr \<in> set result"
  shows "length (most_prescribed_quantity pr) \<le> 5
    \<and> sorted_wrt (\<lambda>q q'. quantity_frequency parse (rows claims_df) (qp_ndc pr) q'
                          \<le> quantity_frequency parse (rows claims_df) (qp_ndc pr) q)
        (most_prescribed_quantity pr)
    \<and> (\<forall>q\<in>set (most_prescribed_quantity pr).
          0 < quantity_frequency parse (rows claims_df) (qp_ndc pr) q)
    \<and> (\<forall>q\<in>set (most_prescribed_quantity pr). \<forall>q'. q' \<notin> set (most_prescribed_quantity pr) \<longrightarrow>
          quantity_frequency parse (rows claims_df) (qp_ndc pr) q'
            \<le> quantity_frequency parse (rows claims_df) (qp_ndc pr) q)
    \<and> distinct (most_prescribed_quantity pr)
    \<and> most_prescribed_quantity pr \<noteq> []"
proof -
  from assms(1) have "result = goal_4_result (goal_4_claims parse (rows claims_df))"
    by (auto simp: calculate_goal_4_common_quantities_def Let_def split: if_splits)
  with assms(2) have "pr \<in> set (goal_4_result (goal_4_claims parse (rows claims_df)))"
    by simp
  then show ?thesis by (rule goal_4_result_quantities)
qed

text \<open>Quantity 30 occurs three times, 10 twice, 0 once.\<close>

theorem goal_4_quantity_lists_witness:
  "snd (calculate_goal_4_common_quantities parse_digits quantity_claims_df)
     = Inr [\<lparr>qp_ndc = ''D1'', most_prescribed_quantity = [30, 10, 0]\<rparr>]
   \<and> sorted_wrt (\<lambda>q q'. quantity_frequency parse_digits (rows quantity_claims_df) ''D1'' q'
                          \<le> quantity_frequency parse_digits (rows quantity_claims_df) ''D1'' q)
        [30, 10, 0]"
proof -
  let ?pr = "\<lparr>qp_ndc = ''D1'', most_prescribed_quantity = [30, 10, 0]\<rparr>"
  have h: "snd (calculate_goal_4_common_quantities parse_digits quantity_claims_df) = Inr [?pr]"
    by code_simp
  have "?pr \<in> set [?pr]" by simp
  from goal_4_quantity_lists [OF h this]
  have "sorted_wrt (\<lambda>q q'. quantity_frequency parse_digits (rows quantity_claims_df) (qp_ndc ?pr) q'
                          \<le> quantity_frequency parse_digits (rows quantity_claims_df) (qp_ndc ?pr) q)
        (most_prescribed_quantity ?pr)"
    by blast
  with h show ?thesis by simp
qed

subsection \<open>What a run writes\<close>

lemma run_goals_finished:
  assumes "outcome (run_goals parse pharmacy_df claims_df reverts_df) = Finished"
  shows "\<exists>g2 g3. written (run_goals parse pharmacy_df claims_df reverts_df) =
     [(''goal_2_metrics.json'', Goal_2_metrics g2),
      (''goal_3_recommendations.json'', Goal_3_recommendations g3),
      (''goal_4_common_quantities.json'',
         Goal_4_common_quantities (goal_4_result (goal_4_claims parse (rows claims_df))))]"
  using assms
  by (auto simp: run_goals_def Let_def calculate_goal_4_common_quantities_def
      split: sum.splits if_splits)

lemma run_goals_not_returned:
  "outcome (run_goals parse pharmacy_df claims_df reverts_df) \<noteq> Returned s"
  by (simp add: run_goals_def Let_def split: sum.splits)

lemma process_frames_finished:
  assumes "outcome (process_frames parse pharmacy_df claims_df reverts_df) = Finished"
  shows "\<exists>g2 g3. written (process_frames parse pharmacy_df claims_df reverts_df) =
     [(''goal_2_metrics.json'', Goal_2_metrics g2),
      (''goal_3_recommendations.json'', Goal_3_recommendations g3),
      (''goal_4_common_quantities.json'',
         Goal_4_common_quantities (goal_4_result (goal_4_claims parse
           (rows (known_pharmacy_claims pharmacy_df claims_df)))))]"
proof -
  let ?P = "pharmacy_df\<lparr>rows := filter (\<lambda>ph. pnpi ph \<noteq> None) (rows pharmacy_df)\<rparr>"
  let ?C = "known_pharmacy_claims pharmacy_df claims_df"
  from assms have "process_frames parse pharmacy_df claims_df reverts_df
      = run_goals parse ?P ?C reverts_df"
    by (auto simp: process_frames_def Let_def split: if_splits)
  with assms run_goals_finished [of parse ?P ?C reverts_df] show ?thesis by simp
qed

lemma process_frames_returned:
  assumes "outcome (process_frames parse pharmacy_df claims_df reverts_df) = Returned s"
  shows "written (process_frames parse pharmacy_df claims_df reverts_df) = []"
  using assms run_goals_not_returned
  by (auto simp: process_frames_def Let_def split: if_splits)

lemma run_goals_written:
  "map fst (written (run_goals parse pharmacy_df claims_df reverts_df)) =
     take (length (written (run_goals parse pharmacy_df claims_df reverts_df)))
       [''goal_2_metrics.json'', ''goal_3_recommendations.json'',
        ''goal_4_common_quantities.json'']"
  by (simp add: run_goals_def Let_def split: sum.splits)

lemma process_frames_written:
  "map fst (written (process_frames parse pharmacy_df claims_df reverts_df)) =
     take (length (written (process_frames parse pharmacy_df claims_df reverts_df)))
       [''goal_2_metrics.json'', ''goal_3_recommendations.json'',
        ''goal_4_common_quantities.json'']"
  by (simp add: process_frames_def Let_def run_goals_written)

lemma process_frames_checks:
  assumes "df_empty pharmacy_df \<or> ''npi'' \<notin> set (columns pharmacy_df)
     \<or> df_empty claims_df \<or> ''npi'' \<notin> set (columns claims_df)
     \<or> df_empty (known_pharmacy_claims pharmacy_df claims_df)"
  shows "written (process_frames parse pharmacy_df claims_df reverts_df) = []"
  using assms by (auto simp: process_frames_def Let_def)

lemma filter_split_length:
  "length (filter P xs) = length (filter (\<lambda>x. P x \<and> Q x) xs) + length (filter (\<lambda>x. P x \<and> \<not> Q x) xs)"
  by (induction xs) auto

text \<open>
  \<^bold>\<open>C2.\<close> A run that finishes writes, as its third file, the Goal 4 result of the claims of
  known pharmacies, whatever the reverts are; and the tally behind it counts, for a drug
  and a quantity, the claims whose id is among the revert \<open>claim_id\<close> values together with
  those whose id is not.
\<close>

theorem goal_4_counts_reverted_claims:
  assumes "outcome (process_frames parse pharmacy_df claims_df reverts_df) = Finished"
  shows "(\<exists>g2 g3. written (process_frames parse pharmacy_df claims_df reverts_df) =
       [(''goal_2_metrics.json'', Goal_2_metrics g2),
        (''goal_3_recommendations.json'', Goal_3_recommendations g3),
        (''goal_4_common_quantities.json'',
           Goal_4_common_quantities (goal_4_result (goal_4_claims parse
             (rows (known_pharmacy_claims pharmacy_df claims_df)))))])
    \<and> ((d, q, n) \<in> set (quantity_counts (goal_4_claims parse
             (rows (known_pharmacy_claims pharmacy_df claims_df))))
        \<longleftrightarrow> 0 < n \<and> n =
          length [c \<leftarrow> rows (known_pharmacy_claims pharmacy_df claims_df).
                    (ndc c = Some d \<and> to_numeric parse (quantity c) = Some q)
                    \<and> cid c \<in> set (map claim_id (rows reverts_df))]
          + length [c \<leftarrow> rows (known_pharmacy_claims pharmacy_df claims_df).
                    (ndc c = Some d \<and> to_numeric parse (quantity c) = Some q)
                    \<and> cid c \<notin> set (map claim_id (rows reverts_df))])"
proof -
  let ?K = "rows (known_pharmacy_claims pharmacy_df claims_df)"
  have "quantity_frequency parse ?K d q =
          length [c \<leftarrow> ?K. (ndc c = Some d \<and> to_numeric parse (quantity c) = Some q)
                    \<and> cid c \<in> set (map claim_id (rows reverts_df))]
          + length [c \<leftarrow> ?K. (ndc c = Some d \<and> to_numeric parse (quantity c) = Some q)
                    \<and> cid c \<notin> set (map claim_id (rows reverts_df))]"
    unfolding quantity_frequency_def by (rule filter_split_length)
  then have "(d, q, n) \<in> set (quantity_counts (goal_4_claims parse ?K))
        \<longleftrightarrow> 0 < n \<and> n =
          length [c \<leftarrow> ?K. (ndc c = Some d \<and> to_numeric parse (quantity c) = Some q)
                    \<and> cid c \<in> set (map claim_id (rows reverts_df))]
          + length [c \<leftarrow> ?K. (ndc c = Some d \<and> to_numeric parse (quantity c) = Some q)
                    \<and> cid c \<notin> set (map claim_id (rows reverts_df))]"
    unfolding quantity_counts_mem by auto
  with process_frames_finished [OF assms] show ?thesis by blast
qed

text \<open>With claim \<open>c1\<close> reverted, quantity 30 of drug \<open>D1\<close> is still counted three
  times: once for \<open>c1\<close>, and for \<open>c3\<close> and \<open>c6\<close>.\<close>

theorem goal_4_counts_reverted_claims_witness:
  "outcome (process_frames parse_digits scenario_pharmacy_df quantity_claims_df
       scenario_reverts_df) = Finished
   \<and> (''D1'', 30, 3) \<in> set (quantity_counts (goal_4_claims parse_digits
         (rows (known_pharmacy_claims scenario_pharmacy_df quantity_claims_df))))
   \<and> length [c \<leftarrow> rows (known_pharmacy_claims scenario_pharmacy_df quantity_claims_df).
                (ndc c = Some ''D1'' \<and> to_numeric parse_digits (quantity c) = Some 30)
                \<and> cid c \<in> set (map claim_id (rows scenario_reverts_df))] = 1
   \<and> (3 :: nat) =
          length [c \<leftarrow> rows (known_pharmacy_claims scenario_pharmacy_df quantity_claims_df).
                    (ndc c = Some ''D1'' \<and> to_numeric parse_digits (quantity c) = Some 30)
                    \<and> cid c \<in> set (map claim_id (rows scenario_reverts_df))]
          + length [c \<leftarrow> rows (known_pharmacy_claims scenario_pharmacy_df quantity_claims_df).
                    (ndc c = Some ''D1'' \<and> to_numeric parse_digits (quantity c) = Some 30)
                    \<and> cid c \<notin> set (map claim_id (rows scenario_reverts_df))]"
proof -
  have h: "outcome (process_frames parse_digits scenario_pharmacy_df quantity_claims_df
       scenario_reverts_df) = Finished"
    by code_simp
  have m: "(''D1'', 30, 3) \<in> set (quantity_counts (goal_4_claims parse_digits
         (rows (known_pharmacy_claims scenario_pharmacy_df quantity_claims_df))))"
    by code_simp
  have r: "length [c \<leftarrow> rows (known_pharmacy_claims scenario_pharmacy_df quantity_claims_df).
                (ndc c = Some ''D1'' \<and> to_numeric parse_digits (quantity c) = Some 30)
                \<and> cid c \<in> set (map claim_id (rows scenario_reverts_df))] = 1"
    by code_simp
  from goal_4_counts_reverted_claims [OF h, of "''D1''" 30 3] m
  have "(3 :: nat) =
          length [c \<leftarrow> rows (known_pharmacy_claims scenario_pharmacy_df quantity_claims_df).
                    (ndc c = Some ''D1'' \<and> to_numeric parse_digits (quantity c) = Some 30)
                    \<and> cid c \<in> set (map claim_id (rows scenario_reverts_df))]
          + length [c \<leftarrow> rows (known_pharmacy_claims scenario_pharmacy_df quantity_claims_df).
                    (ndc c = Some ''D1'' \<and> to_numeric parse_digits (quantity c) = Some 30)
                    \<and> cid c \<notin> set (map claim_id (rows scenario_reverts_df))]"
    by blast
  with h m r show ?thesis by blast
qed

subsection \<open>Claims with a quantity that is not positive\<close>

lemma goal_2_valid_claims_filter:
  "goal_2_valid_claims parse claims reverts =
     map (\<lambda>c. \<lparr>v_id = cid c, v_npi = npi c, v_ndc = ndc c,
                v_price = to_numeric parse (price c),
                v_quantity = to_numeric parse (quantity c),
                unit_price = fdiv (to_numeric parse (price c)) (to_numeric parse (quantity c))\<rparr>)
       (filter (\<lambda>c. cid c \<notin> set (map claim_id reverts)
                  \<and> to_numeric parse (price c) \<noteq> None
                  \<and> to_numeric parse (quantity c) \<noteq> None
                  \<and> gt_zero (to_numeric parse (quantity c))) claims)"
  by (simp add: goal_2_valid_claims_def Let_def filter_map comp_def)

lemma goal_2_valid_claims_removeAll:
  assumes "to_numeric parse (quantity c) = Some q" and "q \<le> 0"
  shows "goal_2_valid_claims parse (removeAll c claims) reverts
     = goal_2_valid_claims parse claims reverts"
proof -
  from assms have "\<not> gt_zero (to_numeric parse (quantity c))" by (simp add: gt_zero_def)
  then have "filter (\<lambda>c. cid c \<notin> set (map claim_id reverts)
                  \<and> to_numeric parse (price c) \<noteq> None
                  \<and> to_numeric parse (quantity c) \<noteq> None
                  \<and> gt_zero (to_numeric parse (quantity c))) (removeAll c claims)
      = filter (\<lambda>c. cid c \<notin> set (map claim_id reverts)
                  \<and> to_numeric parse (price c) \<noteq> None
                  \<and> to_numeric parse (quantity c) \<noteq> None
                  \<and> gt_zero (to_numeric parse (quantity c))) claims"
    unfolding removeAll_filter_not_eq filter_filter by (intro filter_cong refl) auto
  then show ?thesis by (simp only: goal_2_valid_claims_filter)
qed

lemma goal_2_valid_claims_positive:
  assumes "v \<in> set (goal_2_valid_claims parse claims reverts)"
  shows "\<exists>p q'. v_price v = Some p \<and> v_quantity v = Some q' \<and> 0 < q' \<and> unit_price v = Some (p / q')"
proof -
  from goal_2_valid_claims_mem [OF assms]
  have "v_price v \<noteq> None" "gt_zero (v_quantity v)"
    "unit_price v = fdiv (v_price v) (v_quantity v)"
    by auto
  with fdiv_defined [of "v_price v" "v_quantity v"] show ?thesis by auto
qed

lemma quantity_counted:
  assumes "c \<in> set claims" and "to_numeric parse (quantity c) = Some q" and "ndc c = Some d"
  shows "0 < quantity_frequency parse claims d q"
    "(d, q, quantity_frequency parse claims d q) \<in> set (quantity_counts (goal_4_claims parse claims))"
proof -
  from assms have "c \<in> set [c \<leftarrow> claims. ndc c = Some d \<and> to_numeric parse (quantity c) = Some q]"
    by simp
  then show "0 < quantity_frequency parse claims d q"
    unfolding quantity_frequency_def by (rule length_pos_if_in_set)
  then show "(d, q, quantity_frequency parse claims d q) \<in> set (quantity_counts (goal_4_claims parse claims))"
    by (simp add: quantity_counts_mem)
qed

lemma goal_2_result_prices:
  assumes "m \<in> set (goal_2_result parse claims reverts)"
  shows "avg_price m = round2 (case map_of (metrics_df (goal_2_valid_claims parse claims reverts))
              (fm_npi m, fm_ndc m) of None \<Rightarrow> 0
            | Some (a, t) \<Rightarrow> (case a of None \<Rightarrow> 0 | Some x \<Rightarrow> x))"
    and "total_price m = round2 (case map_of (metrics_df (goal_2_valid_claims parse claims reverts))
              (fm_npi m, fm_ndc m) of None \<Rightarrow> 0 | Some (a, t) \<Rightarrow> t)"
proof -
  from goal_2_result_row [OF assms] obtain f
    where m: "m = fill_metric_row ((fm_npi m, fm_ndc m),
          (f, map_of (reverts_count claims reverts) (fm_npi m, fm_ndc m)),
          map_of (metrics_df (goal_2_valid_claims parse claims reverts)) (fm_npi m, fm_ndc m))"
    by blast
  show "avg_price m = round2 (case map_of (metrics_df (goal_2_valid_claims parse claims reverts))
              (fm_npi m, fm_ndc m) of None \<Rightarrow> 0
            | Some (a, t) \<Rightarrow> (case a of None \<Rightarrow> 0 | Some x \<Rightarrow> x))"
    by (subst m) (simp add: fill_metric_row_def)
  show "total_price m = round2 (case map_of (metrics_df (goal_2_valid_claims parse claims reverts))
              (fm_npi m, fm_ndc m) of None \<Rightarrow> 0 | Some (a, t) \<Rightarrow> t)"
    by (subst m) (simp add: fill_metric_row_def)
qed

text \<open>
  \<^bold>\<open>C3.\<close> Every row on which the unit price is computed, in Goal 2 and in Goal 3, has a
  price and a strictly positive quantity, so the quotient is that of a division by a
  positive number. A claim whose quantity coerces to zero or less is not among these
  rows: without it every Goal 2 row has the same \<open>avg_price\<close> and \<open>total_price\<close>, and the
  Goal 3 result is the same. Goal 4 still counts it under its drug and quantity.
\<close>

theorem nonpositive_quantity_claims:
  assumes "c \<in> set claims" and "to_numeric parse (quantity c) = Some q" and "q \<le> 0"
  shows "(\<forall>v\<in>set (goal_2_valid_claims parse claims reverts).
           \<exists>p q'. v_price v = Some p \<and> v_quantity v = Some q' \<and> 0 < q'
                  \<and> unit_price v = Some (p / q'))
    \<and> (\<forall>v\<in>set (goal_3_valid_claims parse claims reverts).
           \<exists>p q'. v_price v = Some p \<and> v_quantity v = Some q' \<and> 0 < q'
                  \<and> unit_price v = Some (p / q'))
    \<and> (\<forall>m\<in>set (goal_2_result parse claims reverts).
         \<forall>m'\<in>set (goal_2_result parse (removeAll c claims) reverts).
           fm_npi m' = fm_npi m \<and> fm_ndc m' = fm_ndc m
             \<longrightarrow> avg_price m' = avg_price m \<and> total_price m' = total_price m)
    \<and> goal_3_result parse (removeAll c claims) pharmacies reverts
        = goal_3_result parse claims pharmacies reverts
    \<and> (\<forall>d. ndc c = Some d \<longrightarrow>
          0 < quantity_frequency parse claims d q
          \<and> (d, q, quantity_frequency parse claims d q)
               \<in> set (quantity_counts (goal_4_claims parse claims)))"
proof -
  have g23: "goal_3_valid_claims parse cs reverts = goal_2_valid_claims parse cs reverts" for cs
    by (simp add: goal_2_valid_claims_def goal_3_valid_claims_def)
  have pos: "\<forall>v\<in>set (goal_2_valid_claims parse claims reverts).
           \<exists>p q'. v_price v = Some p \<and> v_quantity v = Some q' \<and> 0 < q'
                  \<and> unit_price v = Some (p / q')"
    using goal_2_valid_claims_positive by blast
  have rm: "goal_2_valid_claims parse (removeAll c claims) reverts
     = goal_2_valid_claims parse claims reverts"
    using assms(2,3) by (rule goal_2_valid_claims_removeAll)
  have g2: "\<forall>m\<in>set (goal_2_result parse claims reverts).
         \<forall>m'\<in>set (goal_2_result parse (removeAll c claims) reverts).
           fm_npi m' = fm_npi m \<and> fm_ndc m' = fm_ndc m
             \<longrightarrow> avg_price m' = avg_price m \<and> total_price m' = total_price m"
  proof (intro ballI impI)
    fix m m'
    assume m: "m \<in> set (goal_2_result parse claims reverts)"
      and m': "m' \<in> set (goal_2_result parse (removeAll c claims) reverts)"
      and k: "fm_npi m' = fm_npi m \<and> fm_ndc m' = fm_ndc m"
    show "avg_price m' = avg_price m \<and> total_price m' = total_price m"
      unfolding goal_2_result_prices [OF m] goal_2_result_prices [OF m'] rm
      using k by simp
  qed
  have g3: "goal_3_result parse (removeAll c claims) pharmacies reverts
        = goal_3_result parse claims pharmacies reverts"
    by (simp only: goal_3_result_def g23 rm)
  have cnt: "\<forall>d. ndc c = Some d \<longrightarrow>
          0 < quantity_frequency parse claims d q
          \<and> (d, q, quantity_frequency parse claims d q)
               \<in> set (quantity_counts (goal_4_claims parse claims))"
    using quantity_counted [OF assms(1,2)] by blast
  from pos g2 g3 cnt show ?thesis by (simp only: g23 simp_thms)
qed

text \<open>Claim \<open>c4\<close> has quantity 0: Goal 4 counts it, the price metrics do not see it.\<close>

theorem nonpositive_quantity_claims_witness:
  "\<lparr>cid = Some ''c4'', npi = Some ''2'', ndc = Some ''D1'', price = Num 7, quantity = Num 0\<rparr>
     \<in> set (rows quantity_claims_df)
   \<and> to_numeric parse_digits (Num 0) = Some 0
   \<and> 0 < quantity_frequency parse_digits (rows quantity_claims_df) ''D1'' 0
   \<and> goal_3_result parse_digits
        (removeAll \<lparr>cid = Some ''c4'', npi = Some ''2'', ndc = Some ''D1'', price = Num 7,
                    quantity = Num 0\<rparr> (rows quantity_claims_df))
        (rows scenario_pharmacy_df) (rows scenario_reverts_df)
      = goal_3_result parse_digits (rows quantity_claims_df) (rows scenario_pharmacy_df)
          (rows scenario_reverts_df)"
proof -
  let ?c = "\<lparr>cid = Some ''c4'', npi = Some ''2'', ndc = Some ''D1'', price = Num 7,
             quantity = Num 0\<rparr>"
  have h1: "?c \<in> set (rows quantity_claims_df)" by (simp add: quantity_claims_df_def)
  have h2: "to_numeric parse_digits (quantity ?c) = Some 0" by simp
  have h3: "(0 :: rat) \<le> 0" by simp
  have h4: "ndc ?c = Some ''D1''" by simp
  from nonpositive_quantity_claims [OF h1 h2 h3, where reverts = "rows scenario_reverts_df"
      and pharmacies = "rows scenario_pharmacy_df"] h4
  have "0 < quantity_frequency parse_digits (rows quantity_claims_df) ''D1'' 0"
    and "goal_3_result parse_digits (removeAll ?c (rows quantity_claims_df))
        (rows scenario_pharmacy_df) (rows scenario_reverts_df)
      = goal_3_result parse_digits (rows quantity_claims_df) (rows scenario_pharmacy_df)
          (rows scenario_reverts_df)"
    by blast+
  with h1 show ?thesis by simp
qed

subsection \<open>The valid claims of Goal 2 and Goal 3\<close>

text \<open>
  \<^bold>\<open>C10.\<close> The valid claims with their unit price that Goal 2 derives (lines 44-50) are
  those that Goal 3 derives (lines 78-83), for all claims and reverts.
\<close>

theorem valid_claims_goal_2_goal_3:
  "goal_2_valid_claims parse claims reverts = goal_3_valid_claims parse claims reverts"
  by (simp add: goal_2_valid_claims_def goal_3_valid_claims_def)

subsection \<open>Runs of the pipeline\<close>

text \<open>
  \<^bold>\<open>C8\<close> fails on the code. When the revert directories hold no file, or do not exist,
  the loader returns the frame without columns, and Goal 2 asks it for the column
  \<open>claim_id\<close>: the run ends in KeyError and writes nothing.
\<close>

theorem no_reverts_raises:
  "main parse_digits [Some [Some scenario_pharmacy_df]] [Some [Some scenario_claims_df]] [Some []]
     = \<lparr>written = [], outcome = Raised (KeyError ''claim_id'')\<rparr>
   \<and> main parse_digits [Some [Some scenario_pharmacy_df]] [Some [Some scenario_claims_df]] [None]
     = \<lparr>written = [], outcome = Raised (KeyError ''claim_id'')\<rparr>"
  by code_simp

text \<open>
  \<^bold>\<open>C7\<close> fails on the code for Goal 4. Goal 2 and Goal 3 copy the claims before they
  change them; Goal 4 does not, and the frame of its caller loses the claim whose quantity
  is no number and has the other quantity replaced by its number.
\<close>

theorem goal_4_changes_claims:
  "fst (calculate_goal_4_common_quantities parse_digits mixed_quantity_claims_df) =
     \<lparr>columns = [''id'', ''npi'', ''ndc'', ''price'', ''quantity''],
      rows = [\<lparr>cid = Some ''c1'', npi = Some ''1'', ndc = Some ''D1'',
               price = Num 100, quantity = Num 10\<rparr>]\<rparr>
   \<and> fst (calculate_goal_4_common_quantities parse_digits mixed_quantity_claims_df)
       \<noteq> mixed_quantity_claims_df"
  by code_simp

text \<open>
  \<^bold>\<open>C1\<close>, as the code has it. The conditions the pipeline checks (no pharmacy data or no
  \<open>npi\<close> column in it, no claims data or no \<open>npi\<close> column in it, no claim of a known
  pharmacy) are found before anything is written: a run that meets one of them, and every
  run that returns early, writes no file; and a run that finishes has written the three
  files. The goals are computed and written one after the other, so what a run has written
  is always a beginning of the list of the three files.
\<close>

theorem checked_conditions_write_nothing:
  "(df_empty (load_data_from_dirs pharmacy_dirs)
      \<or> ''npi'' \<notin> set (columns (load_data_from_dirs pharmacy_dirs))
      \<or> df_empty (load_data_from_dirs claims_dirs)
      \<or> ''npi'' \<notin> set (columns (load_data_from_dirs claims_dirs))
      \<or> df_empty (known_pharmacy_claims (load_data_from_dirs pharmacy_dirs)
            (load_data_from_dirs claims_dirs))
     \<longrightarrow> written (main parse pharmacy_dirs claims_dirs reverts_dirs) = [])
   \<and> (\<forall>s. outcome (main parse pharmacy_dirs claims_dirs reverts_dirs) = Returned s
     \<longrightarrow> written (main parse pharmacy_dirs claims_dirs reverts_dirs) = [])
   \<and> (outcome (main parse pharmacy_dirs claims_dirs reverts_dirs) = Finished
     \<longrightarrow> map fst (written (main parse pharmacy_dirs claims_dirs reverts_dirs)) =
          [''goal_2_metrics.json'', ''goal_3_recommendations.json'',
           ''goal_4_common_quantities.json''])
   \<and> map fst (written (main parse pharmacy_dirs claims_dirs reverts_dirs)) =
       take (length (written (main parse pharmacy_dirs claims_dirs reverts_dirs)))
         [''goal_2_metrics.json'', ''goal_3_recommendations.json'',
          ''goal_4_common_quantities.json'']"
proof (intro conjI impI allI)
  assume "df_empty (load_data_from_dirs pharmacy_dirs)
      \<or> ''npi'' \<notin> set (columns (load_data_from_dirs pharmacy_dirs))
      \<or> df_empty (load_data_from_dirs claims_dirs)
      \<or> ''npi'' \<notin> set (columns (load_data_from_dirs claims_dirs))
      \<or> df_empty (known_pharmacy_claims (load_data_from_dirs pharmacy_dirs)
            (load_data_from_dirs claims_dirs))"
  then show "written (main parse pharmacy_dirs claims_dirs reverts_dirs) = []"
    unfolding main_def by (rule process_frames_checks)
next
  fix s assume "outcome (main parse pharmacy_dirs claims_dirs reverts_dirs) = Returned s"
  then show "written (main parse pharmacy_dirs claims_dirs reverts_dirs) = []"
    unfolding main_def by (rule process_frames_returned)
next
  assume "outcome (main parse pharmacy_dirs claims_dirs reverts_dirs) = Finished"
  then have "outcome (process_frames parse (load_data_from_dirs pharmacy_dirs)
      (load_data_from_dirs claims_dirs) (load_data_from_dirs reverts_dirs)) = Finished"
    by (simp add: main_def)
  from process_frames_finished [OF this]
  show "map fst (written (main parse pharmacy_dirs claims_dirs reverts_dirs)) =
          [''goal_2_metrics.json'', ''goal_3_recommendations.json'',
           ''goal_4_common_quantities.json'']"
    by (auto simp: main_def)
next
  show "map fst (written (main parse pharmacy_dirs claims_dirs reverts_dirs)) =
       take (length (written (main parse pharmacy_dirs claims_dirs reverts_dirs)))
         [''goal_2_metrics.json'', ''goal_3_recommendations.json'',
          ''goal_4_common_quantities.json'']"
    unfolding main_def by (rule process_frames_written)
qed

text \<open>A claim of an unknown pharmacy: the run returns early and writes nothing. The
  scenario: the run finishes and writes the three files.\<close>

theorem checked_conditions_write_nothing_witness:
  "outcome (main parse_digits [Some [Some scenario_pharmacy_df]]
       [Some [Some unknown_pharmacy_claims_df]] [Some [Some header_only_reverts_df]])
     = Returned No_claims_of_known_pharmacies
   \<and> written (main parse_digits [Some [Some scenario_pharmacy_df]]
       [Some [Some unknown_pharmacy_claims_df]] [Some [Some header_only_reverts_df]]) = []
   \<and> outcome (main parse_digits [Some [Some scenario_pharmacy_df]]
       [Some [Some scenario_claims_df]] [Some [Some header_only_reverts_df]]) = Finished
   \<and> map fst (written (main parse_digits [Some [Some scenario_pharmacy_df]]
       [Some [Some scenario_claims_df]] [Some [Some header_only_reverts_df]])) =
          [''goal_2_metrics.json'', ''goal_3_recommendations.json'',
           ''goal_4_common_quantities.json'']"
proof -
  have a: "outcome (main parse_digits [Some [Some scenario_pharmacy_df]]
       [Some [Some unknown_pharmacy_claims_df]] [Some [Some header_only_reverts_df]])
     = Returned No_claims_of_known_pharmacies"
    by code_simp
  have b: "outcome (main parse_digits [Some [Some scenario_pharmacy_df]]
       [Some [Some scenario_claims_df]] [Some [Some header_only_reverts_df]]) = Finished"
    by code_simp
  from a checked_conditions_write_nothing [of "[Some [Some scenario_pharmacy_df]]"
      "[Some [Some unknown_pharmacy_claims_df]]" parse_digits "[Some [Some header_only_reverts_df]]"]
  have a': "written (main parse_digits [Some [Some scenario_pharmacy_df]]
       [Some [Some unknown_pharmacy_claims_df]] [Some [Some header_only_reverts_df]]) = []"
    by blast
  from b checked_conditions_write_nothing [of "[Some [Some scenario_pharmacy_df]]"
      "[Some [Some scenario_claims_df]]" parse_digits "[Some [Some header_only_reverts_df]]"]
  have b': "map fst (written (main parse_digits [Some [Some scenario_pharmacy_df]]
       [Some [Some scenario_claims_df]] [Some [Some header_only_reverts_df]])) =
          [''goal_2_metrics.json'', ''goal_3_recommendations.json'',
           ''goal_4_common_quantities.json'']"
    by blast
  from a a' b b' show ?thesis by blast
qed

text \<open>With pharmacy records that have no \<open>chain\<close>, the run writes the Goal 2 file and then
  fails in Goal 3: one file of three is left.\<close>

theorem partial_output_counterexample:
  "map fst (written missing_chain_run) = [''goal_2_metrics.json'']
   \<and> outcome missing_chain_run = Raised (KeyError ''chain'')
   \<and> written missing_chain_run \<noteq> []
   \<and> map fst (written missing_chain_run) \<noteq>
        [''goal_2_metrics.json'', ''goal_3_recommendations.json'',
         ''goal_4_common_quantities.json'']"
  by code_simp

end
